theory Spec2Isabelle
  imports Complex_Main "HOL-Library.Word" "HOL-Library.Log_Nat"
begin

section \<open>Strings\<close>

text \<open>
  The pipeline of \<^verbatim>\<open>exam_pipeline.py\<close> works on Python \<^verbatim>\<open>str\<close> values. A string is
  modelled as a \<^typ>\<open>string\<close>; a \<^typ>\<open>char\<close> stands for the character with that code
  point, so the model covers the characters below 256. The character classes are the ones
  Python uses on that range: \<^verbatim>\<open>str.strip()\<close> and the pattern \<^verbatim>\<open>\s\<close> remove or match
  the code points 9 to 13, 28 to 32, 133 and 160; \<^verbatim>\<open>\d\<close> matches the ten ASCII digits;
  \<^verbatim>\<open>str.lower()\<close> maps A to Z and the capital letters 192 to 222 (215 excepted) 32 places
  up; \<^verbatim>\<open>.\<close> matches everything but the line feed.
\<close>

definition newline :: char where
  "newline = CHR 0x0A"

definition backtick :: char where
  "backtick = CHR 0x60"

definition isspace :: "char \<Rightarrow> bool" where
  "isspace c = (of_char c \<in> {9, 10, 11, 12, 13, 28, 29, 30, 31, 32, 133, 160 :: nat})"

definition isdigit :: "char \<Rightarrow> bool" where
  "isdigit c = (48 \<le> (of_char c :: nat) \<and> (of_char c :: nat) \<le> 57)"

definition lower_char :: "char \<Rightarrow> char" where
  "lower_char c =
     (let n = (of_char c :: nat)
      in if (65 \<le> n \<and> n \<le> 90) \<or> (192 \<le> n \<and> n \<le> 222 \<and> n \<noteq> 215)
         then char_of (n + 32) else c)"

definition lower :: "string \<Rightarrow> string" where
  "lower s = map lower_char s"

definition lstrip :: "string \<Rightarrow> string" where
  "lstrip s = dropWhile isspace s"

definition rstrip :: "string \<Rightarrow> string" where
  "rstrip s = rev (dropWhile isspace (rev s))"

definition strip :: "string \<Rightarrow> string" where
  "strip s = rstrip (lstrip s)"

primrec startswith :: "string \<Rightarrow> string \<Rightarrow> bool" where
  "startswith [] s = True"
| "startswith (p # ps) s = (case s of [] \<Rightarrow> False | c # cs \<Rightarrow> p = c \<and> startswith ps cs)"

text \<open>\<^verbatim>\<open>int(s)\<close> on a run of ASCII digits: the number it denotes in base ten.\<close>

definition digit_val :: "char \<Rightarrow> int" where
  "digit_val c = int (of_char c) - 48"

definition decimal :: "string \<Rightarrow> int" where
  "decimal ds = foldl (\<lambda>acc c. 10 * acc + digit_val c) 0 ds"

section \<open>Values of the JSON parser\<close>

text \<open>
  What \<^verbatim>\<open>json.loads\<close> returns: \<^verbatim>\<open>None\<close>, a bool, an int, a float, a str, a list or a
  dict. A dict is kept as the list of its items in insertion order; \<^verbatim>\<open>json.loads\<close> never
  produces the same key twice.
\<close>

datatype json =
    JNull
  | JBool bool
  | JInt int
  | JFloat rat
  | JStr string
  | JArr "json list"
  | JObj "(string \<times> json) list"

text \<open>Python's truth value of an object, which \<^verbatim>\<open>not x\<close> negates.\<close>

fun truthy :: "json \<Rightarrow> bool" where
  "truthy JNull = False"
| "truthy (JBool b) = b"
| "truthy (JInt n) = (n \<noteq> 0)"
| "truthy (JFloat x) = (x \<noteq> 0)"
| "truthy (JStr s) = (s \<noteq> [])"
| "truthy (JArr xs) = (xs \<noteq> [])"
| "truthy (JObj kvs) = (kvs \<noteq> [])"

text \<open>\<^verbatim>\<open>d.get(key, default)\<close> on a dict.\<close>

definition dict_get :: "(string \<times> json) list \<Rightarrow> string \<Rightarrow> json \<Rightarrow> json" where
  "dict_get kvs key dflt = (case map_of kvs key of None \<Rightarrow> dflt | Some v \<Rightarrow> v)"

fun is_list :: "json \<Rightarrow> bool" where
  "is_list (JArr xs) = True"
| "is_list _ = False"

fun is_str :: "json \<Rightarrow> bool" where
  "is_str (JStr s) = True"
| "is_str _ = False"

section \<open>Floating-point numbers\<close>

text \<open>
  A Python \<^verbatim>\<open>float\<close> is an IEEE 754 binary64 number. A finite one is modelled by the
  rational it denotes, and every literal and every operation rounds its exact result to
  the nearest binary64 value, ties to even: \<open>b64\<close>. The magnitudes of this program are
  far from the overflow threshold, which is not modelled, and neither are the infinities
  and NaN: the scores of the two models are taken to be finite.
\<close>

definition round_half_even :: "rat \<Rightarrow> int" where
  "round_half_even x =
     (let f = \<lfloor>x\<rfloor>; d = x - of_int f
      in if d < 1 / 2 then f else if 1 / 2 < d then f + 1 else if even f then f else f + 1)"

text \<open>The exponent \<open>e\<close> with \<open>2 powi e \<le> x < 2 powi (e + 1)\<close>, for a positive \<open>x\<close>.\<close>

definition ilog2 :: "rat \<Rightarrow> int" where
  "ilog2 x =
     (let (p, q) = quotient_of x; e = bitlen p - bitlen q
      in if 2 powi e \<le> x then e else e - 1)"

definition b64 :: "rat \<Rightarrow> rat" where
  "b64 x =
     (if x = 0 then 0
      else let e = max (ilog2 \<bar>x\<bar>) (- 1022); u = 2 powi (e - 52)
           in sgn x * of_int (round_half_even (\<bar>x\<bar> / u)) * u)"

definition float_add :: "rat \<Rightarrow> rat \<Rightarrow> rat" where
  "float_add x y = b64 (x + y)"

definition float_mul :: "rat \<Rightarrow> rat \<Rightarrow> rat" where
  "float_mul x y = b64 (x * y)"

text \<open>The conversion of an \<^verbatim>\<open>int\<close> operand in mixed arithmetic.\<close>

definition float_of_int :: "int \<Rightarrow> rat" where
  "float_of_int n = b64 (of_int n)"

section \<open>The external capabilities\<close>

text \<open>
  The pipeline reaches four capabilities it does not implement: the chat completion
  service, the two sentence-transformer models, the JSON parser and the PDF reader. They
  are the fields of an environment. Every call is recorded in a history, and the
  completion service answers from the history as well as from the request, so that the
  same request may get different answers at different times. The two models are
  functions of their two texts. \<open>json_loads\<close> is \<^verbatim>\<open>None\<close> where \<^verbatim>\<open>json.loads\<close>
  raises \<^verbatim>\<open>JSONDecodeError\<close>; \<open>pdf_text\<close> is the text the \<^verbatim>\<open>try\<close> block of
  \<^verbatim>\<open>extract_text\<close> accumulates over the pages, \<^verbatim>\<open>None\<close> where it raises; \<open>py_str\<close> is
  what an f-string makes of a value that is not a \<^verbatim>\<open>str\<close>; \<open>max_str_digits\<close> is the
  interpreter's limit on the digits of an integer string (4300 where it has one, 0 for
  none). A capability that fails with a network or service error, or with an exception
  other than the ones named, is outside the model, and so is the console output.
\<close>

datatype component = Extractor | Scorer | Rephraser

datatype event =
    Generate component string string rat string
  | Similarity string string rat
  | Relevance string string rat

type_synonym history = "event list"

record env =
  completion :: "history \<Rightarrow> string \<Rightarrow> string \<Rightarrow> rat \<Rightarrow> string"
  cos_sim :: "string \<Rightarrow> string \<Rightarrow> rat"
  cross_predict :: "string \<Rightarrow> string \<Rightarrow> rat"
  json_loads :: "string \<Rightarrow> json option"
  pdf_text :: "8 word list \<Rightarrow> string option"
  py_str :: "json \<Rightarrow> string"
  max_str_digits :: nat

datatype error = AttributeError

definition EXTRACT_MODEL :: string where
  "EXTRACT_MODEL = ''llama-3.1-8b-instant''"

definition SCORE_MODEL :: string where
  "SCORE_MODEL = ''llama-3.3-70b-versatile''"

definition REPHRASE_MODEL :: string where
  "REPHRASE_MODEL = ''llama-3.1-8b-instant''"

text \<open>
  \<^verbatim>\<open>client_groq.chat.completions.create(model, messages, temperature)\<close> followed by
  \<^verbatim>\<open>.choices[0].message.content\<close>: the answer, and the history with the call appended.
\<close>

definition chat_create ::
  "env \<Rightarrow> history \<Rightarrow> component \<Rightarrow> string \<Rightarrow> string \<Rightarrow> rat \<Rightarrow> string \<times> history" where
  "chat_create env h who model prompt temperature =
     (let content = completion env h model prompt temperature
      in (content, h @ [Generate who model prompt temperature content]))"

text \<open>An interpolated value of an f-string.\<close>

definition fmt :: "env \<Rightarrow> json \<Rightarrow> string" where
  "fmt env v = (case v of JStr s \<Rightarrow> s | _ \<Rightarrow> py_str env v)"

section \<open>Text extraction\<close>

text \<open>
  \<^verbatim>\<open>extract_text\<close> returns the empty string when the PDF reader raises and the stripped
  page text otherwise.
\<close>

definition extract_text :: "env \<Rightarrow> 8 word list \<Rightarrow> string" where
  "extract_text env file_bytes =
     (case pdf_text env file_bytes of None \<Rightarrow> [] | Some text \<Rightarrow> strip text)"

section \<open>The tolerant JSON loader\<close>

text \<open>
  \<^verbatim>\<open>re.sub(r"^```json|```$", "", text, flags=re.MULTILINE)\<close> scans the text from the
  left. Where a line starts and the fence with the word \<^verbatim>\<open>json\<close> follows, the seven
  characters go; otherwise, where three backticks stand right before a line feed or the
  end of the text, the three go; otherwise the character stays. The flag says whether
  the character before the position is a line feed (or there is none).
\<close>

definition fence :: string where
  "fence = [backtick, backtick, backtick]"

fun sub_fences :: "bool \<Rightarrow> string \<Rightarrow> string" where
  "sub_fences line_start [] = []"
| "sub_fences line_start (c # cs) =
     (if line_start \<and> startswith (fence @ ''json'') (c # cs)
      then sub_fences False (drop 7 (c # cs))
      else if startswith fence (c # cs) \<and>
              (case drop 3 (c # cs) of [] \<Rightarrow> True | d # ds \<Rightarrow> d = newline)
      then sub_fences False (drop 3 (c # cs))
      else c # sub_fences (c = newline) cs)"

text \<open>
  \<^verbatim>\<open>re.search(r"(\{.*\}|\[.*\])", text, re.S)\<close>: the leftmost opening brace that has a
  closing brace after it, or opening bracket with a closing bracket after it; the match
  runs to the last such closing character.
\<close>

definition through_last :: "char \<Rightarrow> string \<Rightarrow> string" where
  "through_last c s = rev (dropWhile (\<lambda>d. d \<noteq> c) (rev s))"

fun search_json :: "string \<Rightarrow> string option" where
  "search_json [] = None"
| "search_json (c # cs) =
     (if c = CHR ''{'' \<and> CHR ''}'' \<in> set cs then Some (c # through_last (CHR ''}'') cs)
      else if c = CHR ''['' \<and> CHR '']'' \<in> set cs then Some (c # through_last (CHR '']'') cs)
      else search_json cs)"

text \<open>\<^verbatim>\<open>_safe_json_load\<close>; \<open>JNull\<close> is the \<^verbatim>\<open>None\<close> it returns on failure.\<close>

definition safe_json_load :: "env \<Rightarrow> string \<Rightarrow> json" where
  "safe_json_load env text =
     (let text1 = strip text;
          text2 = strip (sub_fences True text1)
      in case search_json text2 of
           None \<Rightarrow> JNull
         | Some m \<Rightarrow> (case json_loads env m of None \<Rightarrow> JNull | Some v \<Rightarrow> v))"

section \<open>Question extraction\<close>

definition extract_prompt :: "string \<Rightarrow> string" where
  \<open>extract_prompt text =
     [newline] @ ''Extract ALL exam questions from the text below.'' @ [newline] @
     ''Return JSON in ONE of these forms:'' @ [newline] @
     ''1) [{"id": 1, "question": "..."}]'' @ [newline] @
     ''2) { "questions": [{"id": 1, "question": "..."}] }'' @ [newline] @
     [newline] @
     ''TEXT:'' @ [newline] @
     text @ [newline]\<close>

text \<open>
  The first of the given keys that the dict has with a list as its value:
  \<^verbatim>\<open>for key in [...]: if key in raw and isinstance(raw[key], list): return raw[key]\<close>.
\<close>

fun first_list :: "(string \<times> json) list \<Rightarrow> string list \<Rightarrow> json list option" where
  "first_list raw [] = None"
| "first_list raw (key # keys) =
     (case map_of raw key of
        Some (JArr xs) \<Rightarrow> Some xs
      | _ \<Rightarrow> first_list raw keys)"

text \<open>Lines 108 to 119 of \<^verbatim>\<open>get_questions\<close>: what becomes of the parsed value.\<close>

definition questions_of :: "json \<Rightarrow> json list" where
  "questions_of raw =
     (case raw of
        JArr xs \<Rightarrow> xs
      | JObj kvs \<Rightarrow>
          (case first_list kvs [''questions'', ''exam_questions''] of
             Some xs \<Rightarrow> xs
           | None \<Rightarrow>
               if list_all is_str (map snd kvs)
               then map (\<lambda>(k, v). JObj [(''id'', JStr k), (''question'', v)]) kvs
               else [])
      | _ \<Rightarrow> [])"

definition get_questions :: "env \<Rightarrow> history \<Rightarrow> string \<Rightarrow> json list \<times> history" where
  "get_questions env h text =
     (if text = [] then ([], h)
      else let (content, h1) = chat_create env h Extractor EXTRACT_MODEL (extract_prompt text) 0;
               raw = safe_json_load env content
           in if raw = JNull then ([], h1) else (questions_of raw, h1))"

section \<open>Scoring\<close>

definition score_prompt :: "string \<Rightarrow> string" where
  "score_prompt question =
     ''Rate this exam question for how likely it is to waste students' time due to confusing wording,'' @ [newline] @
     ''0 = perfectly clear, 100 = extremely confusing. DON'T CONSIDER DOUBLE NEGATIVES.'' @ [newline] @
     ''Give it in this format:'' @ [newline] @
     ''1. Score:'' @ [newline] @
     ''2. Justification: (1 line)'' @ [newline] @
     [newline] @
     ''Question: '' @ question @ [newline]"

text \<open>
  The two patterns \<^verbatim>\<open>Score:\s*(\d+)\<close> and \<^verbatim>\<open>Justification:\s*(.+)\<close> are a literal,
  a greedy run of white space and a greedy, non-empty group of one character class.
  \<open>greedy_group cls k s\<close> is the group when the white space may take up to \<open>k\<close>
  characters of \<open>s\<close>: the matcher tries \<open>k\<close> first and gives back one character at
  a time. \<open>re_search lit cls txt\<close> is the group of the leftmost match, as
  \<^verbatim>\<open>re.search(...).group(1)\<close> gives it, and \<^verbatim>\<open>None\<close> when nothing matches.
\<close>

fun greedy_group :: "(char \<Rightarrow> bool) \<Rightarrow> nat \<Rightarrow> string \<Rightarrow> string option" where
  "greedy_group cls 0 s =
     (let g = takeWhile cls s in if g \<noteq> [] then Some g else None)"
| "greedy_group cls (Suc k) s =
     (let g = takeWhile cls (drop (Suc k) s) in if g \<noteq> [] then Some g else greedy_group cls k s)"

fun re_search :: "string \<Rightarrow> (char \<Rightarrow> bool) \<Rightarrow> string \<Rightarrow> string option" where
  "re_search lit cls [] = None"
| "re_search lit cls (c # cs) =
     (if startswith lit (c # cs)
      then (let rest = drop (length lit) (c # cs)
            in case greedy_group cls (length (takeWhile isspace rest)) rest of
                 Some g \<Rightarrow> Some g
               | None \<Rightarrow> re_search lit cls cs)
      else re_search lit cls cs)"

definition search_score :: "string \<Rightarrow> string option" where
  "search_score txt = re_search ''Score:'' isdigit txt"

definition search_justification :: "string \<Rightarrow> string option" where
  "search_justification txt = re_search ''Justification:'' (\<lambda>c. c \<noteq> newline) txt"

text \<open>
  \<^verbatim>\<open>int(...)\<close> of the digits raises \<^verbatim>\<open>ValueError\<close> when there are more of them than the
  interpreter's limit on integer strings, if it has one.
\<close>

definition py_int :: "nat \<Rightarrow> string \<Rightarrow> int option" where
  "py_int limit ds = (if 0 < limit \<and> limit < length ds then None else Some (decimal ds))"

text \<open>The \<^verbatim>\<open>try\<close> block of \<^verbatim>\<open>score_question\<close>: \<^verbatim>\<open>None\<close> where it raises.\<close>

definition parse_assessment :: "nat \<Rightarrow> string \<Rightarrow> (int \<times> string) option" where
  "parse_assessment limit txt =
     (case search_score txt of
        None \<Rightarrow> None
      | Some ds \<Rightarrow>
          (case py_int limit ds of
             None \<Rightarrow> None
           | Some score \<Rightarrow>
               (case search_justification txt of
                  None \<Rightarrow> None
                | Some g \<Rightarrow> Some (score, strip g))))"

definition score_question :: "env \<Rightarrow> history \<Rightarrow> json \<Rightarrow> (int \<times> string) \<times> history" where
  "score_question env h question =
     (let (txt, h1) = chat_create env h Scorer SCORE_MODEL (score_prompt (fmt env question)) (b64 (2 / 10))
      in case parse_assessment (max_str_digits env) txt of
           Some (score, justification) \<Rightarrow> ((score, justification), h1)
         | None \<Rightarrow> ((0, ''Could not parse score.''), h1))"

section \<open>Rephrasing\<close>

text \<open>\<^verbatim>\<open>dynamic_temp = 0.2 + (attempt * 0.1)\<close>, in binary64 arithmetic.\<close>

definition dynamic_temp :: "nat \<Rightarrow> rat" where
  "dynamic_temp attempt =
     float_add (b64 (2 / 10)) (float_mul (float_of_int (int attempt)) (b64 (1 / 10)))"

definition retry_instruction :: "nat \<Rightarrow> string" where
  "retry_instruction attempt =
     (if attempt > 0
      then ''Your previous attempt was rejected for not matching the original meaning. '' @
           ''Try a different structure while staying strictly faithful to the core intent.''
      else [])"

definition rephrase_prompt :: "string \<Rightarrow> string \<Rightarrow> nat \<Rightarrow> string" where
  "rephrase_prompt question justification attempt =
     ''Rephrase the question to be clearer (score below 20).'' @ [newline] @
     retry_instruction attempt @ [newline] @
     ''Original: '' @ question @ [newline] @
     ''Justification: '' @ justification @ [newline] @
     ''Output ONLY the rephrased question.'' @ [newline]"

definition rephrase ::
  "env \<Rightarrow> history \<Rightarrow> json \<Rightarrow> int \<Rightarrow> string \<Rightarrow> nat \<Rightarrow> string \<times> history" where
  "rephrase env h question score justification attempt =
     (let (content, h1) =
            chat_create env h Rephraser REPHRASE_MODEL
              (rephrase_prompt (fmt env question) justification attempt) (dynamic_temp attempt)
      in (strip content, h1))"

section \<open>Validation\<close>

text \<open>
  \<^verbatim>\<open>validate\<close> calls \<^verbatim>\<open>original.strip()\<close> first, which raises \<^verbatim>\<open>AttributeError\<close> when
  the original is not a \<^verbatim>\<open>str\<close>; the candidate is the \<^verbatim>\<open>str\<close> that \<^verbatim>\<open>rephrase\<close>
  returned. The loading of the two models on first use is not modelled.
\<close>

definition validate :: "env \<Rightarrow> history \<Rightarrow> json \<Rightarrow> string \<Rightarrow> (error + bool) \<times> history" where
  "validate env h original candidate =
     (case original of
        JStr s \<Rightarrow>
          if lower (strip s) = lower (strip candidate) then (Inr False, h)
          else
            let bi_score = cos_sim env s candidate;
                h1 = h @ [Similarity s candidate bi_score]
            in if bi_score < b64 (8 / 10) then (Inr False, h1)
               else
                 let cross_score = cross_predict env s candidate;
                     h2 = h1 @ [Relevance s candidate cross_score]
                 in if cross_score < b64 (75 / 100) then (Inr False, h2)
                    else (Inr True, h2)
      | _ \<Rightarrow> (Inl AttributeError, h))"

section \<open>The main run\<close>

record result =
  ID :: json
  Original_Question :: json
  Score :: int
  Justification :: string
  Final_Version :: json
  Status :: string

definition MAX_PDF_SIZE :: nat where
  "MAX_PDF_SIZE = 10 * 1024 * 1024"

definition MAX_ATTEMPTS :: nat where
  "MAX_ATTEMPTS = 6"

text \<open>
  \<^verbatim>\<open>for attempt in range(MAX_ATTEMPTS)\<close> over the attempts still to make, with the two
  variables \<^verbatim>\<open>final\<close> and \<^verbatim>\<open>status\<close> the loop assigns before its \<^verbatim>\<open>break\<close>.
\<close>

fun attempts ::
  "env \<Rightarrow> json \<Rightarrow> int \<Rightarrow> string \<Rightarrow> json \<times> string \<Rightarrow> history \<Rightarrow> nat list
     \<Rightarrow> (error + json \<times> string) \<times> history" where
  "attempts env original score justification (final, status) h [] = (Inr (final, status), h)"
| "attempts env original score justification (final, status) h (attempt # rest) =
     (let (candidate, h1) = rephrase env h original score justification attempt
      in case validate env h1 original candidate of
           (Inl e, h2) \<Rightarrow> (Inl e, h2)
         | (Inr True, h2) \<Rightarrow> (Inr (JStr candidate, ''Rephrased''), h2)
         | (Inr False, h2) \<Rightarrow> attempts env original score justification (final, status) h2 rest)"

text \<open>
  The body of \<^verbatim>\<open>for q in questions\<close>: \<^verbatim>\<open>None\<close> for \<^verbatim>\<open>continue\<close>, the record it appends
  otherwise. \<^verbatim>\<open>q.get\<close> raises \<^verbatim>\<open>AttributeError\<close> when \<^verbatim>\<open>q\<close> is not a dict.
\<close>

definition remediate :: "env \<Rightarrow> history \<Rightarrow> json \<Rightarrow> (error + result option) \<times> history" where
  "remediate env h q =
     (case q of
        JObj kvs \<Rightarrow>
          (let original = dict_get kvs ''question'' (JStr [])
           in if \<not> truthy original then (Inr None, h)
              else
                (let ((score, justification), h1) = score_question env h original;
                     final = original;
                     status = ''Original Kept'';
                     (outcome, h2) =
                       (if score > 20
                        then (case attempts env original score justification (final, status) h1
                                     [0..<MAX_ATTEMPTS] of
                                (Inl e, h2) \<Rightarrow> (Inl e, h2)
                              | (Inr (final1, status1), h2) \<Rightarrow>
                                  (Inr (final1,
                                        if status1 = ''Original Kept''
                                        then ''Manual Review Required'' else status1), h2))
                        else (Inr (final, status), h1))
                 in (case outcome of
                       Inl e \<Rightarrow> (Inl e, h2)
                     | Inr (final2, status2) \<Rightarrow>
                         (Inr (Some \<lparr>ID = dict_get kvs ''id'' (JStr ''?''),
                                     Original_Question = original,
                                     Score = score,
                                     Justification = justification,
                                     Final_Version = final2,
                                     Status = status2\<rparr>), h2))))
      | _ \<Rightarrow> (Inl AttributeError, h))"

fun run_loop ::
  "env \<Rightarrow> history \<Rightarrow> json list \<Rightarrow> result list \<Rightarrow> (error + result list) \<times> history" where
  "run_loop env h [] results = (Inr results, h)"
| "run_loop env h (q # questions) results =
     (case remediate env h q of
        (Inl e, h1) \<Rightarrow> (Inl e, h1)
      | (Inr None, h1) \<Rightarrow> run_loop env h1 questions results
      | (Inr (Some r), h1) \<Rightarrow> run_loop env h1 questions (results @ [r]))"

definition run :: "env \<Rightarrow> history \<Rightarrow> 8 word list \<Rightarrow> (error + result list) \<times> history" where
  "run env h file_bytes =
     (if length file_bytes > MAX_PDF_SIZE then (Inr [], h)
      else
        let text = extract_text env file_bytes
        in if text = [] then (Inr [], h)
           else
             let (questions, h1) = get_questions env h text
             in run_loop env h1 questions [])"

section \<open>Reading the history\<close>

text \<open>
  What a history says about the requests of one component: the requests themselves, the
  temperatures they were made with, and, for the rephraser, the candidates it returned
  (the stripped answers).
\<close>

fun issued_by :: "component \<Rightarrow> event \<Rightarrow> bool" where
  "issued_by who (Generate w model prompt temperature content) = (w = who)"
| "issued_by who (Similarity a b x) = False"
| "issued_by who (Relevance a b x) = False"

definition requests :: "component \<Rightarrow> history \<Rightarrow> event list" where
  "requests who h = filter (issued_by who) h"

fun temperature_of :: "event \<Rightarrow> rat" where
  "temperature_of (Generate w model prompt temperature content) = temperature"
| "temperature_of (Similarity a b x) = 0"
| "temperature_of (Relevance a b x) = 0"

fun content_of :: "event \<Rightarrow> string" where
  "content_of (Generate w model prompt temperature content) = content"
| "content_of (Similarity a b x) = []"
| "content_of (Relevance a b x) = []"

definition candidates :: "history \<Rightarrow> string list" where
  "candidates h = map (\<lambda>e. strip (content_of e)) (requests Rephraser h)"

definition temperatures :: "history \<Rightarrow> rat list" where
  "temperatures h = map temperature_of (requests Rephraser h)"

text \<open>The verdict of the gate on a candidate; it does not depend on the history.\<close>

definition accepts :: "env \<Rightarrow> json \<Rightarrow> string \<Rightarrow> bool" where
  "accepts env original candidate = (fst (validate env [] original candidate) = Inr True)"

definition rejects :: "env \<Rightarrow> json \<Rightarrow> string \<Rightarrow> bool" where
  "rejects env original candidate = (fst (validate env [] original candidate) = Inr False)"

text \<open>A binary64 value: rounding leaves it as it is.\<close>

definition is_binary64 :: "rat \<Rightarrow> bool" where
  "is_binary64 x = (b64 x = x)"

text \<open>
  What the loop of attempts leaves behind, read from the events \<open>new\<close> it appended: at
  most one candidate per attempt, each requested at the temperature of its attempt, no
  request of another component, every candidate but the last rejected by the gate, and
  an outcome that is either the initial pair after as many rejected candidates as there
  were attempts, or the last candidate, accepted, or the error the gate raised on it.
\<close>

definition attempts_post ::
  "env \<Rightarrow> json \<Rightarrow> json \<times> string \<Rightarrow> nat list \<Rightarrow> (error + json \<times> string) \<Rightarrow> history \<Rightarrow> bool" where
  "attempts_post env original init ks res new =
     (let cs = candidates new
      in length cs \<le> length ks \<and>
         temperatures new = map dynamic_temp (take (length cs) ks) \<and>
         requests Scorer new = [] \<and> requests Extractor new = [] \<and>
         (\<forall>c \<in> set (butlast cs). rejects env original c) \<and>
         (case res of
            Inr fs \<Rightarrow>
              (fs = init \<and> length cs = length ks \<and> (\<forall>c \<in> set cs. rejects env original c)) \<or>
              (cs \<noteq> [] \<and> fs = (JStr (last cs), ''Rephrased'') \<and> accepts env original (last cs))
          | Inl e \<Rightarrow> cs \<noteq> [] \<and> fst (validate env [] original (last cs)) = Inl e))"

section \<open>Example environments\<close>

text \<open>
  Concrete capabilities for the examples below: the scorer always answers
  \<open>score_reply\<close>, the rephraser answers by the temperature of the request, the
  extractor answers \<open>extract_reply\<close>, the bi-encoder scores by the candidate, the
  cross-encoder always says 0.875, the JSON parser is a table and the PDF reader reads
  every byte as a character.
\<close>

definition scripted_env ::
  "string \<Rightarrow> string \<Rightarrow> (rat \<Rightarrow> string) \<Rightarrow> (string \<Rightarrow> rat) \<Rightarrow> (string \<times> json) list \<Rightarrow> env" where
  "scripted_env extract_reply score_reply rephrase_reply similarity table =
     \<lparr>completion = (\<lambda>h model prompt temperature.
        if model = SCORE_MODEL then score_reply
        else if startswith ''Rephrase'' prompt then rephrase_reply temperature
        else extract_reply),
      cos_sim = (\<lambda>original candidate. similarity candidate),
      cross_predict = (\<lambda>original candidate. 7 / 8),
      json_loads = map_of table,
      pdf_text = (\<lambda>file_bytes. Some (map (\<lambda>b. char_of (unat b)) file_bytes)),
      py_str = (\<lambda>v. ''?''),
      max_str_digits = 4300\<rparr>"

definition question_1 :: json where
  "question_1 = JObj [(''id'', JInt 1), (''question'', JStr ''Which is not unlike the other?'')]"

definition env_all_rejected :: env where
  "env_all_rejected =
     scripted_env [] (''1. Score: 90'' @ [newline] @ ''2. Justification: double negation'')
       (\<lambda>temperature. '' Which one? '') (\<lambda>candidate. 1 / 2) []"

definition result_manual :: result where
  "result_manual =
     \<lparr>ID = JInt 1, Original_Question = JStr ''Which is not unlike the other?'', Score = 90,
      Justification = ''double negation'',
      Final_Version = JStr ''Which is not unlike the other?'',
      Status = ''Manual Review Required''\<rparr>"

definition env_clear :: env where
  "env_clear =
     scripted_env [] (''1. Score: 10'' @ [newline] @ ''2. Justification: plain wording'')
       (\<lambda>temperature. '' Which one? '') (\<lambda>candidate. 1 / 2) []"

definition env_last_accepted :: env where
  "env_last_accepted =
     scripted_env [] (''1. Score: 85'' @ [newline] @ ''2. Justification: double negation'')
       (\<lambda>temperature. if temperature < 13 / 20 then '' Which one? ''
                       else '' Which is like the other? '')
       (\<lambda>candidate. if candidate = ''Which is like the other?'' then 7 / 8 else 1 / 2) []"

definition env_over_100 :: env where
  "env_over_100 =
     scripted_env [] (''1. Score: 150'' @ [newline] @ ''2. Justification: very confusing'')
       (\<lambda>temperature. '' Which one? '') (\<lambda>candidate. 1 / 2) []"

text \<open>
  What the two patterns of the scorer look for, said without a matcher: somewhere in the
  text stands the literal, then white space (possibly none), then at least one character
  of the class.
\<close>

definition field_match :: "string \<Rightarrow> (char \<Rightarrow> bool) \<Rightarrow> string \<Rightarrow> bool" where
  "field_match lit cls s =
     (\<exists>pre ws g post. s = pre @ lit @ ws @ g @ post \<and> list_all isspace ws \<and> g \<noteq> [] \<and> list_all cls g)"

definition env_unparsable :: env where
  "env_unparsable =
     scripted_env [] ''Score: high. It reads badly.''
       (\<lambda>temperature. '' Which one? '') (\<lambda>candidate. 1 / 2) []"

definition reply_one_question :: string where
  \<open>reply_one_question = ''[{"id": 1, "question": "What is 2 + 2?"}]''\<close>

definition env_extract :: env where
  "env_extract =
     scripted_env reply_one_question
       (''1. Score: 10'' @ [newline] @ ''2. Justification: plain wording'')
       (\<lambda>temperature. '' Which one? '') (\<lambda>candidate. 1 / 2)
       [(reply_one_question, JArr [JObj [(''id'', JInt 1), (''question'', JStr ''What is 2 + 2?'')]])]"

text \<open>\<^verbatim>\<open>key in raw and isinstance(raw[key], list)\<close>, the test of the loop over the two keys.\<close>

definition has_list :: "(string \<times> json) list \<Rightarrow> string \<Rightarrow> bool" where
  "has_list raw key = (case map_of raw key of Some v \<Rightarrow> is_list v | None \<Rightarrow> False)"

definition question_no_id :: json where
  "question_no_id = JObj [(''question'', JStr ''Which is not unlike the other?'')]"

text \<open>
  A question record as the data model has it: a dict whose text, under the key
  \<^verbatim>\<open>question\<close>, is a string or is missing. Its text (the empty string when missing),
  its identifier (\<^verbatim>\<open>?\<close> when missing), and whether it has a text at all.
\<close>

definition question_record :: "json \<Rightarrow> bool" where
  "question_record q =
     (case q of
        JObj kvs \<Rightarrow> (case map_of kvs ''question'' of None \<Rightarrow> True | Some v \<Rightarrow> is_str v)
      | _ \<Rightarrow> False)"

definition question_text :: "json \<Rightarrow> json" where
  "question_text q = (case q of JObj kvs \<Rightarrow> dict_get kvs ''question'' (JStr []) | _ \<Rightarrow> JStr [])"

definition record_id :: "json \<Rightarrow> json" where
  "record_id q = (case q of JObj kvs \<Rightarrow> dict_get kvs ''id'' (JStr ''?'') | _ \<Rightarrow> JStr ''?'')"

definition has_text :: "json \<Rightarrow> bool" where
  "has_text q = truthy (question_text q)"

fun is_dict :: "json \<Rightarrow> bool" where
  "is_dict (JObj kvs) = True"
| "is_dict _ = False"

definition reply_mixed :: string where
  \<open>reply_mixed =
     ''[{"id": 1, "question": "Which is not unlike the other?"}, "What is 2 + 2?"]''\<close>

definition env_mixed :: env where
  "env_mixed =
     scripted_env reply_mixed
       (''1. Score: 10'' @ [newline] @ ''2. Justification: plain wording'')
       (\<lambda>temperature. '' Which one? '') (\<lambda>candidate. 1 / 2)
       [(reply_mixed, JArr [question_1, JStr ''What is 2 + 2?''])]"

definition question_blank :: json where
  "question_blank = JObj [(''id'', JInt 2), (''question'', JStr [])]"

text \<open>
  Case folding, as the spec words the first check of the gate (\<^verbatim>\<open>str.casefold\<close>), on
  the characters of the model. It differs from \<^verbatim>\<open>str.lower\<close> at the sharp s (223), which
  folds to \<^verbatim>\<open>ss\<close>, and at the micro sign (181), whose folding lies outside the model's
  characters and is the folding of no other of them: leaving it in place changes no
  comparison of two folded texts.
\<close>

definition casefold_char :: "char \<Rightarrow> string" where
  "casefold_char c = (if (of_char c :: nat) = 223 then ''ss'' else [lower_char c])"

definition casefold :: "string \<Rightarrow> string" where
  "casefold s = concat (map casefold_char s)"

definition env_similar :: env where
  "env_similar =
     scripted_env [] (''1. Score: 85'' @ [newline] @ ''2. Justification: double negation'')
       (\<lambda>temperature. '' Which one? '') (\<lambda>candidate. 7 / 8) []"

definition strasse_sharp :: string where
  "strasse_sharp = ''Stra'' @ [CHR 0xDF] @ ''e''"

definition reply_fenced :: string where
  "reply_fenced = fence @ ''json'' @ [newline] @ reply_one_question @ [newline] @ fence"

definition env_fenced :: env where
  "env_fenced =
     scripted_env reply_fenced
       (''1. Score: 10'' @ [newline] @ ''2. Justification: plain wording'')
       (\<lambda>temperature. '' Which one? '') (\<lambda>candidate. 1 / 2)
       [(reply_one_question, JArr [JObj [(''id'', JInt 1), (''question'', JStr ''What is 2 + 2?'')]])]"

definition env_numbers :: env where
  "env_numbers =
     scripted_env ''Here you are: [1, 2]''
       (''1. Score: 10'' @ [newline] @ ''2. Justification: plain wording'')
       (\<lambda>temperature. '' Which one? '') (\<lambda>candidate. 1 / 2)
       [(''[1, 2]'', JArr [JInt 1, JInt 2])]"

section \<open>Facts about the model\<close>

subsection \<open>Values of the floating-point expressions\<close>

lemma b64_values:
  "b64 (1 / 5) = 3602879701896397 / 18014398509481984"
  "b64 (4 / 5) = 3602879701896397 / 4503599627370496"
  "b64 (3 / 4) = 3 / 4"
  by code_simp+

lemma dynamic_temp_values:
  "dynamic_temp 0 = 3602879701896397 / 18014398509481984"
  "dynamic_temp (Suc 0) = 1351079888211149 / 4503599627370496"
  "dynamic_temp 2 = 3602879701896397 / 9007199254740992"
  "dynamic_temp 3 = 1 / 2"
  "dynamic_temp 4 = 1351079888211149 / 2251799813685248"
  "dynamic_temp 5 = 3152519739159347 / 4503599627370496"
  by code_simp+

lemma upt_6: "[0..<6] = [0, Suc 0, 2, 3, 4, 5]"
  by (simp add: upt_rec)

text \<open>The definitions a concrete run unfolds.\<close>

lemmas run_simps =
  remediate_def dict_get_def score_question_def chat_create_def scripted_env_def
  SCORE_MODEL_def REPHRASE_MODEL_def EXTRACT_MODEL_def fmt_def parse_assessment_def
  search_score_def search_justification_def py_int_def decimal_def digit_val_def
  isspace_def isdigit_def newline_def strip_def lstrip_def rstrip_def lower_def lower_char_def
  MAX_ATTEMPTS_def upt_6 rephrase_def rephrase_prompt_def retry_instruction_def validate_def
  b64_values dynamic_temp_values Let_def score_prompt_def
  get_questions_def safe_json_load_def questions_of_def extract_prompt_def fence_def
  backtick_def through_last_def extract_text_def run_def MAX_PDF_SIZE_def

subsection \<open>The history grows by appending\<close>

lemma requests_append: "requests who (a @ b) = requests who a @ requests who b"
  by (simp add: requests_def)

lemma candidates_append: "candidates (a @ b) = candidates a @ candidates b"
  by (simp add: candidates_def requests_append)

lemma temperatures_append: "temperatures (a @ b) = temperatures a @ temperatures b"
  by (simp add: temperatures_def requests_append)

lemma validate_appends:
  "validate env h original candidate =
     (fst (validate env [] original candidate), h @ snd (validate env [] original candidate))"
  by (simp add: validate_def Let_def split: json.splits)

lemma validate_no_requests: "requests who (snd (validate env [] original candidate)) = []"
  by (simp add: validate_def Let_def requests_def split: json.splits)

lemma rephrase_appends:
  "rephrase env h q s j k =
     (strip (completion env h REPHRASE_MODEL (rephrase_prompt (fmt env q) j k) (dynamic_temp k)),
      h @ [Generate Rephraser REPHRASE_MODEL (rephrase_prompt (fmt env q) j k) (dynamic_temp k)
             (completion env h REPHRASE_MODEL (rephrase_prompt (fmt env q) j k) (dynamic_temp k))])"
  by (simp add: rephrase_def chat_create_def Let_def)

lemma attempts_trace:
  "attempts env original score justification init h ks = (res, h') \<Longrightarrow>
      \<exists>new. h' = h @ new \<and> attempts_post env original init ks res new"
proof (induction ks arbitrary: h)
  case Nil
  then show ?case
    by (cases init) (auto simp: attempts_post_def candidates_def temperatures_def requests_def)
next
  case (Cons k ks)
  obtain final status where init: "init = (final, status)" by (cases init)
  define reply where "reply = completion env h REPHRASE_MODEL (rephrase_prompt (fmt env original) justification k) (dynamic_temp k)"
  define ev where "ev = Generate Rephraser REPHRASE_MODEL (rephrase_prompt (fmt env original) justification k) (dynamic_temp k) reply"
  define c where "c = strip reply"
  define gate where "gate = snd (validate env [] original c)"
  have reph: "rephrase env h original score justification k = (c, h @ [ev])"
    by (simp add: rephrase_appends c_def ev_def reply_def)
  have val: "validate env (h @ [ev]) original c = (fst (validate env [] original c), h @ [ev] @ gate)"
    using validate_appends[of env "h @ [ev]" original c] by (simp add: gate_def)
  have gate_req: "\<And>who. requests who gate = []"
    by (simp add: gate_def validate_no_requests)
  have ev_c: "\<And>xs. candidates (ev # xs) = c # candidates xs"
    "\<And>xs. temperatures (ev # xs) = dynamic_temp k # temperatures xs"
    "\<And>xs. requests Scorer (ev # xs) = requests Scorer xs"
    "\<And>xs. requests Extractor (ev # xs) = requests Extractor xs"
    by (simp_all add: candidates_def temperatures_def requests_def ev_def c_def)
  have gate_c: "candidates gate = []" "temperatures gate = []"
    by (simp_all add: candidates_def temperatures_def gate_req)
  show ?case
  proof (cases "fst (validate env [] original c)")
    case (Inl e)
    with Cons.prems reph val init have "res = Inl e" "h' = h @ ([ev] @ gate)"
      by auto
    moreover have "attempts_post env original init (k # ks) (Inl e) ([ev] @ gate)"
      using Inl by (simp add: attempts_post_def candidates_append temperatures_append requests_append ev_c gate_c gate_req)
    ultimately show ?thesis by blast
  next
    case (Inr ok)
    show ?thesis
    proof (cases ok)
      case True
      with Inr Cons.prems reph val init have "res = Inr (JStr c, ''Rephrased'')" "h' = h @ ([ev] @ gate)"
        by auto
      moreover have "attempts_post env original init (k # ks) (Inr (JStr c, ''Rephrased'')) ([ev] @ gate)"
        using Inr True by (simp add: attempts_post_def candidates_append temperatures_append requests_append ev_c gate_c gate_req accepts_def)
      ultimately show ?thesis by blast
    next
      case False
      with Inr Cons.prems reph val init
      have rec: "attempts env original score justification init (h @ [ev] @ gate) ks = (res, h')"
        by auto
      from Cons.IH[OF rec] obtain new where new: "h' = (h @ [ev] @ gate) @ new"
        "attempts_post env original init ks res new" by blast
      have rej: "rejects env original c" using Inr False by (simp add: rejects_def)
      have "attempts_post env original init (k # ks) res ([ev] @ gate @ new)"
        using new(2) rej
        apply (simp add: attempts_post_def Let_def candidates_append temperatures_append requests_append ev_c gate_c gate_req)
        apply (cases "candidates new = []")
         apply (auto split: sum.splits)
        done
      with new(1) show ?thesis by auto
    qed
  qed
qed


subsection \<open>The loop body, case by case\<close>

lemma score_question_appends:
  "snd (score_question env h question) =
     h @ [Generate Scorer SCORE_MODEL (score_prompt (fmt env question)) (b64 (2 / 10))
            (completion env h SCORE_MODEL (score_prompt (fmt env question)) (b64 (2 / 10)))]"
  by (simp add: score_question_def chat_create_def Let_def split: option.splits prod.splits)

lemma remediate_not_dict:
  "\<forall>kvs. q \<noteq> JObj kvs \<Longrightarrow> remediate env h q = (Inl AttributeError, h)"
  by (cases q) (simp_all add: remediate_def)

lemma remediate_skip:
  "\<not> truthy (dict_get kvs ''question'' (JStr [])) \<Longrightarrow> remediate env h (JObj kvs) = (Inr None, h)"
  by (simp add: remediate_def)

lemma remediate_clear:
  assumes "original = dict_get kvs ''question'' (JStr [])"
    and "truthy original"
    and "score_question env h original = ((score, justification), h1)"
    and "score \<le> 20"
  shows "remediate env h (JObj kvs) =
           (Inr (Some \<lparr>ID = dict_get kvs ''id'' (JStr ''?''),
                       Original_Question = original,
                       Score = score, Justification = justification,
                       Final_Version = original,
                       Status = ''Original Kept''\<rparr>), h1)"
  using assms by (simp add: remediate_def Let_def)

lemma remediate_confusing:
  assumes "original = dict_get kvs ''question'' (JStr [])"
    and "truthy original"
    and "score_question env h original = ((score, justification), h1)"
    and "20 < score"
    and "attempts env original score justification (original, ''Original Kept'') h1
           [0..<MAX_ATTEMPTS] = (res, h2)"
  shows "remediate env h (JObj kvs) =
           (case res of
              Inl e \<Rightarrow> (Inl e, h2)
            | Inr (final, status) \<Rightarrow>
                (Inr (Some \<lparr>ID = dict_get kvs ''id'' (JStr ''?''),
                            Original_Question = original,
                            Score = score, Justification = justification,
                            Final_Version = final,
                            Status = (if status = ''Original Kept'' then ''Manual Review Required''
                                      else status)\<rparr>), h2))"
  using assms by (simp add: remediate_def Let_def split: sum.splits prod.splits)

lemma accepts_not_rejects: "accepts env original c \<Longrightarrow> \<not> rejects env original c"
  by (simp add: accepts_def rejects_def)

subsection \<open>Binary64 values and the thresholds of the gate\<close>

lemma bitlen_rat_bounds:
  assumes "0 < (p::int)"
  shows "(2::rat) powi (bitlen p - 1) \<le> of_int p" "of_int p < (2::rat) powi (bitlen p)"
proof -
  have b: "1 \<le> bitlen p" using assms by (auto simp: bitlen_alt_def)
  from bitlen_bounds[OF assms] have l: "2 ^ nat (bitlen p - 1) \<le> p" and u: "p < 2 ^ nat (bitlen p)"
    by auto
  have "(2::rat) powi (bitlen p - 1) = of_int (2 ^ nat (bitlen p - 1))"
    using b by (simp add: power_int_def)
  also have "\<dots> \<le> of_int p" using l by (simp only: of_int_le_iff)
  finally show "(2::rat) powi (bitlen p - 1) \<le> of_int p" .
  have "of_int p < (of_int (2 ^ nat (bitlen p)) :: rat)" using u by (simp only: of_int_less_iff)
  also have "\<dots> = (2::rat) powi (bitlen p)"
    using b by (simp add: power_int_def)
  finally show "of_int p < (2::rat) powi (bitlen p)" .
qed

lemma ilog2_bounds:
  assumes "0 < x"
  shows "2 powi (ilog2 x) \<le> x \<and> x < 2 powi (ilog2 x + 1)"
proof -
  obtain p q where pq: "quotient_of x = (p, q)" by (cases "quotient_of x")
  then have q: "0 < q" by (rule quotient_of_denom_pos)
  have x: "x = of_int p / of_int q" using pq by (rule quotient_of_div)
  have p: "0 < p" using assms q x by (simp add: zero_less_divide_iff)
  define a where "a = bitlen p"
  define b where "b = bitlen q"
  note pb = bitlen_rat_bounds[OF p, folded a_def]
  note qb = bitlen_rat_bounds[OF q, folded b_def]
  have qpos: "(0::rat) < of_int q" using q by simp
  have ppos: "(0::rat) < of_int p" using p by simp
  have lower: "2 powi (a - b - 1) \<le> x"
  proof -
    have "(2::rat) powi (a - b - 1) = 2 powi (a - 1) / 2 powi b"
      by (simp add: power_int_diff)
    also have "\<dots> \<le> of_int p / 2 powi b"
      using pb(1) by (simp add: divide_right_mono)
    also have "\<dots> \<le> of_int p / of_int q"
      using qb(2) qpos ppos by (simp add: frac_le)
    finally show ?thesis by (simp add: x)
  qed
  have upper: "x < 2 powi (a - b + 1)"
  proof -
    have "x = of_int p / of_int q" by (rule x)
    also have "\<dots> < 2 powi a / of_int q"
      using pb(2) qpos by (simp add: divide_strict_right_mono)
    also have "\<dots> \<le> 2 powi a / 2 powi (b - 1)"
      using qb(1) by (simp add: frac_le)
    also have "\<dots> = 2 powi (a - b + 1)"
      by (simp add: power_int_diff power_int_add)
    finally show ?thesis .
  qed
  show ?thesis
    using lower upper pq by (auto simp: ilog2_def a_def b_def Let_def)
qed

lemma powi_less_exp:
  assumes "(2::rat) powi m < 2 powi n"
  shows "m < n"
proof (rule ccontr)
  assume "\<not> m < n"
  then have "n \<le> m" by simp
  then have "(2::rat) powi n \<le> 2 powi m" by (rule power_int_increasing) simp
  with assms show False by simp
qed

lemma ilog2_unique:
  assumes "2 powi e \<le> x" "x < 2 powi (e + 1)"
  shows "ilog2 x = e"
proof -
  have "(0::rat) < 2 powi e" by simp
  then have pos: "0 < x" using assms(1) by (rule less_le_trans)
  from ilog2_bounds[OF pos] have b: "2 powi (ilog2 x) \<le> x" "x < 2 powi (ilog2 x + 1)" by auto
  have "(2::rat) powi e < 2 powi (ilog2 x + 1)" using assms(1) b(2) by simp
  then have 1: "e < ilog2 x + 1" by (rule powi_less_exp)
  have "(2::rat) powi (ilog2 x) < 2 powi (e + 1)" using assms(2) b(1) by simp
  then have 2: "ilog2 x < e + 1" by (rule powi_less_exp)
  from 1 2 show ?thesis by simp
qed


lemma b64_binade:
  assumes "2 powi e \<le> x" "x < 2 powi (e + 1)" "- 1022 \<le> e"
  shows "b64 x = of_int (round_half_even (x / 2 powi (e - 52))) * 2 powi (e - 52)"
proof -
  have "(0::rat) < 2 powi e" by simp
  then have pos: "0 < x" using assms(1) by (rule less_le_trans)
  have "ilog2 \<bar>x\<bar> = e" using pos assms(1,2) by (simp add: ilog2_unique)
  then show ?thesis using pos assms(3) by (simp add: b64_def Let_def)
qed

lemma binary64_threshold:
  assumes "is_binary64 x"
  shows "(b64 (4 / 5) \<le> x) = (4 / 5 \<le> x)"
proof
  assume "b64 (4 / 5) \<le> x"
  then show "4 / 5 \<le> x" by (simp add: b64_values)
next
  assume ge: "4 / 5 \<le> x"
  show "b64 (4 / 5) \<le> x"
  proof (cases "x < 1")
    case False
    then show ?thesis by (simp add: b64_values)
  next
    case True
    have lo: "2 powi (- 1) \<le> x" using ge by (simp add: power_int_def)
    have hi: "x < 2 powi (- 1 + 1)" using True by simp
    define m where "m = round_half_even (x / 2 powi (- 1 - 52))"
    have "b64 x = of_int m * 2 powi (- 1 - 52)"
      using b64_binade[OF lo hi] by (simp add: m_def)
    then have x: "x = of_int m / 9007199254740992"
      using assms by (simp add: is_binary64_def power_int_def field_simps)
    from ge x have "(4::rat) * 9007199254740992 \<le> 5 * of_int m"
      by (simp add: field_simps)
    then have "(of_int (36028797018963968::int) :: rat) \<le> of_int (5 * m)"
      by simp
    then have "36028797018963968 \<le> 5 * m"
      by (simp only: of_int_le_iff)
    then have "7205759403792794 \<le> m" by simp
    then have "(of_int (7205759403792794::int) :: rat) \<le> of_int m"
      by (simp only: of_int_le_iff)
    then show ?thesis by (simp add: b64_values x field_simps)
  qed
qed

lemma remediate_trace:
  assumes "remediate env h q = (res, h')"
  shows "\<exists>new. h' = h @ new \<and> length (candidates new) \<le> MAX_ATTEMPTS \<and>
           temperatures new = map dynamic_temp [0..<length (candidates new)]"
proof (cases q)
  case (JObj kvs)
  obtain original where original: "original = dict_get kvs ''question'' (JStr [])"
    by simp
  show ?thesis
  proof (cases "truthy original")
    case False
    then have "remediate env h q = (Inr None, h)"
      by (simp add: JObj original remediate_skip)
    with assms have "h' = h @ []" by simp
    then show ?thesis
      by (rule_tac x = "[]" in exI) (simp add: candidates_def temperatures_def requests_def)
  next
    case True
    obtain score justification h1 where sq: "score_question env h original = ((score, justification), h1)"
      by (metis prod.exhaust)
    obtain ev where h1: "h1 = h @ [ev]" and ev: "requests Rephraser [ev] = []"
      using score_question_appends[of env h original] sq by (simp add: requests_def)
    have ev_c: "\<And>xs. candidates (ev # xs) = candidates xs" "\<And>xs. temperatures (ev # xs) = temperatures xs"
      using ev by (simp_all add: candidates_def temperatures_def requests_def split: if_splits)
    have nil: "candidates [] = []" "temperatures [] = []"
      by (simp_all add: candidates_def temperatures_def requests_def)
    show ?thesis
    proof (cases "score \<le> 20")
      case le: True
      from remediate_clear[OF original True sq le] assms have "h' = h @ [ev]"
        by (simp add: JObj h1)
      then show ?thesis
        by (rule_tac x = "[ev]" in exI) (simp add: ev_c nil)
    next
      case gt: False
      obtain ares h2 where att: "attempts env original score justification (original, ''Original Kept'') h1 [0..<MAX_ATTEMPTS] = (ares, h2)"
        by (metis prod.exhaust)
      from attempts_trace[OF att] obtain new where new: "h2 = h1 @ new"
        "attempts_post env original (original, ''Original Kept'') [0..<MAX_ATTEMPTS] ares new"
        by blast
      have "snd (remediate env h q) = h2"
        using remediate_confusing[OF original True sq _ att] gt
        by (simp add: JObj split: sum.splits prod.splits)
      with assms have h': "h' = h @ ev # new"
        using new(1) h1 by simp
      have len: "length (candidates new) \<le> MAX_ATTEMPTS"
        using new(2) by (simp add: attempts_post_def Let_def)
      have "temperatures new = map dynamic_temp (take (length (candidates new)) [0..<MAX_ATTEMPTS])"
        using new(2) by (simp add: attempts_post_def Let_def)
      also have "take (length (candidates new)) [0..<MAX_ATTEMPTS] = [0..<length (candidates new)]"
        using len by simp
      finally show ?thesis
        using h' len by (rule_tac x = "ev # new" in exI) (simp add: ev_c)
    qed
  qed
qed (use assms in \<open>auto simp: remediate_def candidates_def temperatures_def requests_def\<close>)

lemma dynamic_temp_increasing:
  assumes "Suc k < MAX_ATTEMPTS"
  shows "dynamic_temp k < dynamic_temp (Suc k)"
proof -
  have steps: "dynamic_temp 0 < dynamic_temp (Suc 0)" "dynamic_temp (Suc 0) < dynamic_temp 2"
    "dynamic_temp 2 < dynamic_temp 3" "dynamic_temp 3 < dynamic_temp 4"
    "dynamic_temp 4 < dynamic_temp 5"
    by (simp_all add: dynamic_temp_values)
  have sucs: "Suc (Suc 0) = 2" "Suc 2 = 3" "Suc 3 = 4" "Suc 4 = 5"
    by simp_all
  from assms consider "k = 0" | "k = Suc 0" | "k = 2" | "k = 3" | "k = 4"
    unfolding MAX_ATTEMPTS_def by linarith
  then show ?thesis
    by cases (simp_all only: sucs steps)
qed

lemma dynamic_temp_sorted:
  assumes "n \<le> MAX_ATTEMPTS"
  shows "sorted_wrt (<) (map dynamic_temp [0..<n])"
proof -
  have "sorted_wrt (<) (map dynamic_temp [0..<MAX_ATTEMPTS])"
    by (simp add: MAX_ATTEMPTS_def upt_6 dynamic_temp_values)
  then have "sorted_wrt (<) (take n (map dynamic_temp [0..<MAX_ATTEMPTS]))"
    by (rule sorted_wrt_take)
  moreover have "take n (map dynamic_temp [0..<MAX_ATTEMPTS]) = map dynamic_temp [0..<n]"
    using assms by (simp add: take_map)
  ultimately show ?thesis by simp
qed

lemma dynamic_temp_close:
  assumes "k < MAX_ATTEMPTS"
  shows "\<bar>dynamic_temp k - (2 / 10 + of_nat k * (1 / 10))\<bar> \<le> 1 / 2 ^ 53"
proof -
  from assms consider "k = 0" | "k = Suc 0" | "k = 2" | "k = 3" | "k = 4" | "k = 5"
    unfolding MAX_ATTEMPTS_def by linarith
  then show ?thesis
    by cases (simp_all add: dynamic_temp_values)
qed

subsection \<open>What the patterns of the scorer return\<close>

lemma greedy_group_Some:
  "greedy_group cls k s = Some g \<Longrightarrow> g \<noteq> [] \<and> list_all cls g"
proof (induction k)
  case 0
  then show ?case
    by (auto simp: Let_def list_all_iff split: if_splits dest: set_takeWhileD)
next
  case (Suc k)
  then show ?case
    by (auto simp: Let_def list_all_iff split: if_splits dest: set_takeWhileD)
qed

lemma re_search_Some:
  "re_search lit cls s = Some g \<Longrightarrow> g \<noteq> [] \<and> list_all cls g"
proof (induction s)
  case Nil
  then show ?case by simp
next
  case (Cons c cs)
  then show ?case
    by (auto simp: Let_def split: if_splits option.splits dest: greedy_group_Some)
qed

lemma foldl_decimal_nonneg:
  "0 \<le> acc \<Longrightarrow> list_all isdigit ds \<Longrightarrow> 0 \<le> foldl (\<lambda>acc c. 10 * acc + digit_val c) acc ds"
proof (induction ds arbitrary: acc)
  case Nil
  then show ?case by simp
next
  case (Cons d ds)
  from Cons.prems have "0 \<le> 10 * acc + digit_val d"
    by (simp add: isdigit_def digit_val_def)
  with Cons show ?case by simp
qed

lemma decimal_nonneg: "list_all isdigit ds \<Longrightarrow> 0 \<le> decimal ds"
  by (simp add: decimal_def foldl_decimal_nonneg)

lemma parse_assessment_Some:
  assumes "parse_assessment limit txt = Some (n, j)"
  shows "\<exists>ds. search_score txt = Some ds \<and> ds \<noteq> [] \<and> list_all isdigit ds \<and> n = decimal ds"
proof -
  from assms obtain ds where ds: "search_score txt = Some ds" "py_int limit ds = Some n"
    by (auto simp: parse_assessment_def split: option.splits)
  from ds(1) have "ds \<noteq> [] \<and> list_all isdigit ds"
    unfolding search_score_def by (rule re_search_Some)
  moreover from ds(2) have "n = decimal ds"
    by (simp add: py_int_def split: if_splits)
  ultimately show ?thesis using ds(1) by blast
qed

lemma greedy_group_None:
  "(greedy_group cls k s = None) = (\<forall>j \<le> k. takeWhile cls (drop j s) = [])"
proof (induction k)
  case 0
  then show ?case by (simp add: Let_def)
next
  case (Suc k)
  then show ?case by (auto simp: Let_def le_Suc_eq)
qed

lemma startswith_iff: "startswith p s = (\<exists>r. s = p @ r)"
proof (induction p arbitrary: s)
  case Nil
  then show ?case by simp
next
  case (Cons a p)
  then show ?case by (cases s) auto
qed

lemma group_after_space:
  "(\<exists>ws g post. s = ws @ g @ post \<and> list_all isspace ws \<and> g \<noteq> [] \<and> list_all cls g) =
   (\<exists>j \<le> length (takeWhile isspace s). takeWhile cls (drop j s) \<noteq> [])"
proof
  assume "\<exists>ws g post. s = ws @ g @ post \<and> list_all isspace ws \<and> g \<noteq> [] \<and> list_all cls g"
  then obtain ws g post where m: "s = ws @ g @ post" "list_all isspace ws" "g \<noteq> []" "list_all cls g"
    by blast
  have "takeWhile isspace s = ws @ takeWhile isspace (g @ post)"
    using m(1,2) by (simp add: list_all_iff)
  then have "length ws \<le> length (takeWhile isspace s)" by simp
  moreover have "takeWhile cls (drop (length ws) s) \<noteq> []"
    using m by (cases g) (auto simp: list_all_iff)
  ultimately show "\<exists>j \<le> length (takeWhile isspace s). takeWhile cls (drop j s) \<noteq> []"
    by blast
next
  assume "\<exists>j \<le> length (takeWhile isspace s). takeWhile cls (drop j s) \<noteq> []"
  then obtain j where j: "j \<le> length (takeWhile isspace s)" "takeWhile cls (drop j s) \<noteq> []"
    by blast
  have "take j s = take j (takeWhile isspace s)"
    using j(1) by (metis takeWhile_dropWhile_id take_append diff_is_0_eq' take0 append_Nil2)
  then have "set (take j s) \<subseteq> set (takeWhile isspace s)"
    by (metis set_take_subset)
  then have ws: "list_all isspace (take j s)"
    by (auto simp: list_all_iff dest: set_takeWhileD)
  have "s = take j s @ takeWhile cls (drop j s) @ dropWhile cls (drop j s)"
    by simp
  moreover have "list_all cls (takeWhile cls (drop j s))"
    by (auto simp: list_all_iff dest: set_takeWhileD)
  ultimately show "\<exists>ws g post. s = ws @ g @ post \<and> list_all isspace ws \<and> g \<noteq> [] \<and> list_all cls g"
    using ws j(2) by blast
qed

lemma re_search_None:
  assumes "lit \<noteq> []"
  shows "(re_search lit cls s = None) = (\<not> field_match lit cls s)"
proof (induction s)
  case Nil
  then show ?case using assms by (simp add: field_match_def)
next
  case (Cons c cs)
  let ?here = "\<exists>ws g post. c # cs = lit @ ws @ g @ post \<and> list_all isspace ws \<and> g \<noteq> [] \<and> list_all cls g"
  have split: "field_match lit cls (c # cs) = (?here \<or> field_match lit cls cs)"
  proof
    assume "field_match lit cls (c # cs)"
    then obtain pre ws g post where m: "c # cs = pre @ lit @ ws @ g @ post"
      "list_all isspace ws" "g \<noteq> []" "list_all cls g"
      unfolding field_match_def by blast
    show "?here \<or> field_match lit cls cs"
    proof (cases pre)
      case Nil
      with m show ?thesis by auto
    next
      case (Cons a pre')
      with m have "cs = pre' @ lit @ ws @ g @ post" by simp
      with m(2-4) show ?thesis unfolding field_match_def by blast
    qed
  next
    assume "?here \<or> field_match lit cls cs"
    then show "field_match lit cls (c # cs)"
    proof
      assume ?here
      then show ?thesis unfolding field_match_def by (metis append_Nil)
    next
      assume "field_match lit cls cs"
      then obtain pre ws g post where m: "cs = pre @ lit @ ws @ g @ post"
        "list_all isspace ws" "g \<noteq> []" "list_all cls g"
        unfolding field_match_def by blast
      then have "c # cs = (c # pre) @ lit @ ws @ g @ post" by simp
      with m(2-4) show ?thesis unfolding field_match_def by blast
    qed
  qed
  have here: "?here =
    (startswith lit (c # cs) \<and>
     greedy_group cls (length (takeWhile isspace (drop (length lit) (c # cs))))
       (drop (length lit) (c # cs)) \<noteq> None)"
  proof (cases "startswith lit (c # cs)")
    case False
    then show ?thesis by (auto simp: startswith_iff)
  next
    case True
    then obtain r where r: "c # cs = lit @ r" by (auto simp: startswith_iff)
    have "?here = (\<exists>ws g post. r = ws @ g @ post \<and> list_all isspace ws \<and> g \<noteq> [] \<and> list_all cls g)"
      by (simp add: r)
    also have "\<dots> = (\<exists>j \<le> length (takeWhile isspace r). takeWhile cls (drop j r) \<noteq> [])"
      by (rule group_after_space)
    also have "\<dots> = (greedy_group cls (length (takeWhile isspace r)) r \<noteq> None)"
      by (simp add: greedy_group_None)
    finally show ?thesis using True by (simp add: r)
  qed
  show ?case
    unfolding split here using Cons.IH
    by (auto simp: Let_def split: option.splits)
qed

subsection \<open>The extractor and its request\<close>

lemma strip_all_space:
  assumes "list_all isspace s"
  shows "strip s = []"
proof -
  have e: "dropWhile isspace s = []"
    using assms by (induction s) simp_all
  show ?thesis
    by (simp only: strip_def lstrip_def rstrip_def e rev.simps dropWhile.simps)
qed

lemma get_questions_request:
  "text \<noteq> [] \<Longrightarrow>
   snd (get_questions env h text) =
     h @ [Generate Extractor EXTRACT_MODEL (extract_prompt text) 0
            (completion env h EXTRACT_MODEL (extract_prompt text) 0)]"
  by (simp add: get_questions_def chat_create_def Let_def)

lemma first_list_two:
  "first_list kvs [k1, k2] =
     (if has_list kvs k1 then (case map_of kvs k1 of Some (JArr xs) \<Rightarrow> Some xs | _ \<Rightarrow> None)
      else if has_list kvs k2 then (case map_of kvs k2 of Some (JArr xs) \<Rightarrow> Some xs | _ \<Rightarrow> None)
      else None)"
  by (auto simp: has_list_def split: option.splits json.splits)

subsection \<open>The identifier of a record\<close>

lemma map_of_filter_other:
  "k \<noteq> k' \<Longrightarrow> map_of (filter (\<lambda>kv. fst kv \<noteq> k') kvs) k = map_of kvs k"
  by (induction kvs) auto

lemma map_of_filter_same:
  "map_of (filter (\<lambda>kv. fst kv \<noteq> k) kvs) k = None"
  by (induction kvs) auto

lemma remediate_ID:
  "remediate env h (JObj kvs) = (Inr (Some r), h') \<Longrightarrow> ID r = dict_get kvs ''id'' (JStr ''?'')"
  by (auto simp: remediate_def Let_def split: if_splits prod.splits sum.splits)

lemma remediate_without_id:
  "remediate env h (JObj (filter (\<lambda>kv. fst kv \<noteq> ''id'') kvs)) =
     (map_sum id (map_option (\<lambda>r. r\<lparr>ID := JStr ''?''\<rparr>)) (fst (remediate env h (JObj kvs))),
      snd (remediate env h (JObj kvs)))"
proof -
  have q: "dict_get (filter (\<lambda>kv. fst kv \<noteq> ''id'') kvs) ''question'' (JStr []) =
      dict_get kvs ''question'' (JStr [])"
    by (simp add: dict_get_def map_of_filter_other)
  have i: "dict_get (filter (\<lambda>kv. fst kv \<noteq> ''id'') kvs) ''id'' (JStr ''?'') = JStr ''?''"
    by (simp add: dict_get_def map_of_filter_same)
  show ?thesis
    by (simp add: remediate_def q i Let_def split: prod.splits sum.splits)
qed

subsection \<open>The loop over the questions\<close>

lemma validate_str: "\<exists>b h'. validate env h (JStr s) c = (Inr b, h')"
  by (auto simp: validate_def Let_def)

lemma is_str_iff: "is_str v = (\<exists>s. v = JStr s)"
  by (cases v) simp_all

lemma attempts_str:
  "\<exists>fs h'. attempts env (JStr s) score justification init h ks = (Inr fs, h')"
proof (induction ks arbitrary: h)
  case Nil
  then show ?case by (cases init) simp
next
  case (Cons k ks)
  obtain final status where init: "init = (final, status)" by (cases init)
  obtain c h1 where r: "rephrase env h (JStr s) score justification k = (c, h1)"
    by (metis prod.exhaust)
  obtain b h2 where v: "validate env h1 (JStr s) c = (Inr b, h2)"
    using validate_str by blast
  show ?case
  proof (cases b)
    case True
    with r v init show ?thesis by simp
  next
    case False
    with r v init Cons.IH[of h2] show ?thesis by simp
  qed
qed

lemma remediate_record:
  assumes "question_record q"
  shows "(\<not> has_text q \<longrightarrow> remediate env h q = (Inr None, h)) \<and>
         (has_text q \<longrightarrow>
            (\<exists>r h'. remediate env h q = (Inr (Some r), h') \<and>
                    ID r = record_id q \<and> Original_Question r = question_text q))"
proof (cases q)
  case (JObj kvs)
  obtain original where original: "original = dict_get kvs ''question'' (JStr [])"
    by simp
  from assms JObj obtain s where s: "original = JStr s"
    by (auto simp: question_record_def original dict_get_def is_str_iff split: option.splits)
  show ?thesis
  proof (cases "truthy original")
    case False
    then show ?thesis
      by (simp add: JObj has_text_def question_text_def original remediate_skip)
  next
    case True
    obtain score justification h1 where sq: "score_question env h original = ((score, justification), h1)"
      by (metis prod.exhaust)
    have "\<exists>r h'. remediate env h q = (Inr (Some r), h') \<and>
                    ID r = record_id q \<and> Original_Question r = question_text q"
    proof (cases "score \<le> 20")
      case le: True
      from remediate_clear[OF original True sq le] show ?thesis
        by (simp add: JObj record_id_def question_text_def original)
    next
      case False
      then have gt: "20 < score" by simp
      obtain fs h2 where att: "attempts env original score justification (original, ''Original Kept'') h1
           [0..<MAX_ATTEMPTS] = (Inr fs, h2)"
        using attempts_str s by blast
      obtain final status where fs: "fs = (final, status)" by (cases fs)
      from remediate_confusing[OF original True sq gt att] show ?thesis
        by (simp add: JObj record_id_def question_text_def original fs)
    qed
    with True show ?thesis
      by (simp add: JObj has_text_def question_text_def original)
  qed
qed (use assms in \<open>simp_all add: question_record_def\<close>)

lemma run_loop_records:
  assumes "list_all question_record questions"
  shows "\<exists>rs h'. run_loop env h questions results = (Inr (results @ rs), h') \<and>
           map (\<lambda>r. (ID r, Original_Question r)) rs =
             map (\<lambda>q. (record_id q, question_text q)) (filter has_text questions)"
  using assms
proof (induction questions arbitrary: h results)
  case Nil
  then show ?case by simp
next
  case (Cons q qs)
  then have q: "question_record q" and qs: "list_all question_record qs"
    by simp_all
  show ?case
  proof (cases "has_text q")
    case False
    with remediate_record[OF q, of env h] have "remediate env h q = (Inr None, h)"
      by simp
    with Cons.IH[OF qs, of h results] False show ?thesis by simp
  next
    case True
    with remediate_record[OF q, of env h] obtain r h1 where
      r: "remediate env h q = (Inr (Some r), h1)" "ID r = record_id q"
        "Original_Question r = question_text q"
      by blast
    from Cons.IH[OF qs, of h1 "results @ [r]"] obtain rs h' where
      rs: "run_loop env h1 qs (results @ [r]) = (Inr ((results @ [r]) @ rs), h')"
        "map (\<lambda>r. (ID r, Original_Question r)) rs =
           map (\<lambda>q. (record_id q, question_text q)) (filter has_text qs)"
      by blast
    have "run_loop env h (q # qs) results = (Inr (results @ (r # rs)), h')"
      using r(1) rs(1) by simp
    moreover have "map (\<lambda>r. (ID r, Original_Question r)) (r # rs) =
             map (\<lambda>q. (record_id q, question_text q)) (filter has_text (q # qs))"
      using True r(2,3) rs(2) by simp
    ultimately show ?thesis by blast
  qed
qed

lemma run_loop_not_dict:
  "\<not> list_all is_dict questions \<Longrightarrow> fst (run_loop env h questions results) = Inl AttributeError"
proof (induction questions arbitrary: h results)
  case Nil
  then show ?case by simp
next
  case (Cons q qs)
  show ?case
  proof (cases "is_dict q")
    case False
    then have "remediate env h q = (Inl AttributeError, h)"
      by (cases q) (simp_all add: remediate_def)
    then show ?thesis by simp
  next
    case True
    with Cons.prems have qs: "\<not> list_all is_dict qs" by simp
    obtain res h1 where r: "remediate env h q = (res, h1)" by (metis prod.exhaust)
    show ?thesis
    proof (cases res)
      case (Inl e)
      with r show ?thesis by (cases e) simp
    next
      case (Inr ro)
      with r Cons.IH[OF qs] show ?thesis by (cases ro) simp_all
    qed
  qed
qed

subsection \<open>The status after the attempts\<close>

lemma remediate_manual_review:
  assumes "remediate env h q = (res, h')"
  shows "take (length h) h' = h \<and>
         length (candidates (drop (length h) h')) \<le> MAX_ATTEMPTS \<and>
         (\<forall>r. res = Inr (Some r) \<longrightarrow>
            (Status r = ''Manual Review Required'') =
              (20 < Score r \<and>
               length (candidates (drop (length h) h')) = MAX_ATTEMPTS \<and>
               (\<forall>c \<in> set (candidates (drop (length h) h')). rejects env (Original_Question r) c)) \<and>
            (Status r = ''Manual Review Required'' \<longrightarrow> Final_Version r = Original_Question r))"
proof (cases q)
  case (JObj kvs)
  obtain original where original: "original = dict_get kvs ''question'' (JStr [])"
    by simp
  show ?thesis
  proof (cases "truthy original")
    case False
    then have "remediate env h q = (Inr None, h)"
      by (simp add: JObj original remediate_skip)
    with assms show ?thesis by (auto simp: candidates_def requests_def)
  next
    case True
    obtain score justification h1 where sq: "score_question env h original = ((score, justification), h1)"
      by (metis prod.exhaust)
    define ev where "ev = Generate Scorer SCORE_MODEL (score_prompt (fmt env original)) (b64 (2 / 10))
            (completion env h SCORE_MODEL (score_prompt (fmt env original)) (b64 (2 / 10)))"
    have h1: "h1 = h @ [ev]"
      using score_question_appends[of env h original] sq by (simp add: ev_def)
    have ev_c: "\<And>xs. candidates (ev # xs) = candidates xs"
      by (simp add: candidates_def requests_def ev_def)
    show ?thesis
    proof (cases "score \<le> 20")
      case le: True
      from remediate_clear[OF original True sq le] assms le
      show ?thesis by (auto simp: JObj h1 ev_c candidates_def requests_def ev_def)
    next
      case gt: False
      obtain ares h2 where att: "attempts env original score justification (original, ''Original Kept'') h1 [0..<MAX_ATTEMPTS] = (ares, h2)"
        by (metis prod.exhaust)
      from attempts_trace[OF att] obtain new where new: "h2 = h1 @ new"
        "attempts_post env original (original, ''Original Kept'') [0..<MAX_ATTEMPTS] ares new"
        by blast
      have rem: "remediate env h q =
           (case ares of
              Inl e \<Rightarrow> (Inl e, h2)
            | Inr (final, status) \<Rightarrow>
                (Inr (Some \<lparr>ID = dict_get kvs ''id'' (JStr ''?''),
                            Original_Question = original,
                            Score = score, Justification = justification,
                            Final_Version = final,
                            Status = (if status = ''Original Kept'' then ''Manual Review Required''
                                      else status)\<rparr>), h2))"
        using remediate_confusing[OF original True sq _ att] gt
        by (simp add: JObj)
      have h': "h' = h @ ev # new"
        using rem assms new(1) h1 by (auto split: sum.splits)
      have cs: "candidates (drop (length h) h') = candidates new"
        by (simp add: h' ev_c)
      have len: "length (candidates new) \<le> MAX_ATTEMPTS"
        using new(2) by (simp add: attempts_post_def Let_def)
      have p1: "take (length h) h' = h"
        by (simp add: h')
      have p2: "length (candidates (drop (length h) h')) \<le> MAX_ATTEMPTS"
        using len by (simp add: cs)
      have res: "res = (case ares of Inl e \<Rightarrow> Inl e
            | Inr (final, status) \<Rightarrow>
                Inr (Some \<lparr>ID = dict_get kvs ''id'' (JStr ''?''),
                            Original_Question = original,
                            Score = score, Justification = justification,
                            Final_Version = final,
                            Status = (if status = ''Original Kept'' then ''Manual Review Required''
                                      else status)\<rparr>))"
        using rem assms by (auto split: sum.splits)
      have p3: "\<forall>r. res = Inr (Some r) \<longrightarrow>
            (Status r = ''Manual Review Required'') =
              (20 < Score r \<and> length (candidates new) = MAX_ATTEMPTS \<and>
               (\<forall>c \<in> set (candidates new). rejects env (Original_Question r) c)) \<and>
            (Status r = ''Manual Review Required'' \<longrightarrow> Final_Version r = Original_Question r)"
      proof (cases ares)
        case (Inl e)
        with res show ?thesis by simp
      next
        case (Inr fs)
        from new(2) Inr consider
          (kept) "fs = (original, ''Original Kept'')" "length (candidates new) = MAX_ATTEMPTS"
            "\<forall>c \<in> set (candidates new). rejects env original c"
          | (rephrased) "candidates new \<noteq> []" "fs = (JStr (last (candidates new)), ''Rephrased'')"
            "accepts env original (last (candidates new))"
          by (auto simp: attempts_post_def Let_def)
        then show ?thesis
        proof cases
          case kept
          with res Inr gt show ?thesis by auto
        next
          case rephrased
          have "\<not> (\<forall>c \<in> set (candidates new). rejects env original c)"
            using rephrased(1,3) accepts_not_rejects last_in_set by blast
          with rephrased res Inr gt show ?thesis by auto
        qed
      qed
      from p1 p2 p3 show ?thesis by (simp only: cs) 
    qed
  qed
qed (use assms in \<open>auto simp: remediate_def candidates_def requests_def\<close>)

text \<open>
  A text that is not a string is scored like any other and, above 20, reaches the gate,
  where \<^verbatim>\<open>original.strip()\<close> fails: the number 42 scored 90.
\<close>

lemma remediate_number_text:
  "fst (remediate env_all_rejected [] (JObj [(''id'', JInt 3), (''question'', JInt 42)])) =
     Inl AttributeError"
  by (simp add: run_simps env_all_rejected_def)

section \<open>The claims\<close>

text \<open>
  C1. A question record with a non-empty text whose score is at most 20 yields a record
  with the status \<^verbatim>\<open>Original Kept\<close> and the original question as its final version.
  The history after it is the one the scorer left: no request of the rephraser is made.
\<close>

theorem clear_question_kept:
  assumes "original = dict_get kvs ''question'' (JStr [])"
    and "truthy original"
    and "score_question env h original = ((score, justification), h1)"
    and "score \<le> 20"
  shows "remediate env h (JObj kvs) =
           (Inr (Some \<lparr>ID = dict_get kvs ''id'' (JStr ''?''),
                       Original_Question = original,
                       Score = score, Justification = justification,
                       Final_Version = original,
                       Status = ''Original Kept''\<rparr>), h1) \<and>
         requests Rephraser h1 = requests Rephraser h \<and>
         candidates (drop (length h) h1) = []"
proof -
  have "h1 = snd (score_question env h original)"
    using assms(3) by simp
  then have h1: "h1 = h @ [Generate Scorer SCORE_MODEL (score_prompt (fmt env original)) (b64 (2 / 10))
            (completion env h SCORE_MODEL (score_prompt (fmt env original)) (b64 (2 / 10)))]"
    by (simp only: score_question_appends)
  have "requests Rephraser h1 = requests Rephraser h"
    by (simp add: h1 requests_def)
  moreover have "candidates (drop (length h) h1) = []"
    by (simp add: h1 candidates_def requests_def)
  ultimately show ?thesis
    using remediate_clear[OF assms] by simp
qed

theorem clear_question_kept_witness:
  "truthy (JStr ''Which is not unlike the other?'') \<and>
   fst (score_question env_clear [] (JStr ''Which is not unlike the other?'')) = (10, ''plain wording'') \<and>
   fst (remediate env_clear [] question_1) =
     Inr (Some \<lparr>ID = JInt 1, Original_Question = JStr ''Which is not unlike the other?'',
                 Score = 10, Justification = ''plain wording'',
                 Final_Version = JStr ''Which is not unlike the other?'',
                 Status = ''Original Kept''\<rparr>) \<and>
   requests Rephraser (snd (remediate env_clear [] question_1)) = []"
proof -
  let ?kvs = "[(''id'', JInt 1), (''question'', JStr ''Which is not unlike the other?'')]"
  let ?o = "JStr ''Which is not unlike the other?''"
  have o: "?o = dict_get ?kvs ''question'' (JStr [])"
    by (simp add: dict_get_def)
  have t: "truthy ?o" by simp
  have s: "fst (score_question env_clear [] ?o) = (10, ''plain wording'')"
    by (simp add: run_simps env_clear_def)
  then have sq: "score_question env_clear [] ?o = ((10, ''plain wording''), snd (score_question env_clear [] ?o))"
    by (metis prod.collapse)
  from clear_question_kept[OF o t sq] t s show ?thesis
    by (simp add: question_1_def dict_get_def requests_def)
qed

text \<open>
  C2. For every question the loop body makes at most 6 rephrase attempts, whatever its
  outcome. A record it emits has the status \<^verbatim>\<open>Manual Review Required\<close> if and only if
  its score is above 20 and 6 candidates were requested and the gate rejected every one
  of them; the final version of such a record is the original question. The candidates
  are the ones the rephraser returned between the history \<open>h\<close> before and the history
  \<open>h'\<close> after.
\<close>

theorem manual_review_iff:
  assumes "remediate env h q = (res, h')"
  shows "MAX_ATTEMPTS = 6 \<and>
         take (length h) h' = h \<and>
         length (candidates (drop (length h) h')) \<le> 6 \<and>
         (\<forall>r. res = Inr (Some r) \<longrightarrow>
            (Status r = ''Manual Review Required'') =
              (20 < Score r \<and>
               length (candidates (drop (length h) h')) = 6 \<and>
               (\<forall>c \<in> set (candidates (drop (length h) h')). rejects env (Original_Question r) c)) \<and>
            (Status r = ''Manual Review Required'' \<longrightarrow> Final_Version r = Original_Question r))"
  using remediate_manual_review[OF assms] by (simp add: MAX_ATTEMPTS_def)

theorem manual_review_iff_witness:
  "fst (remediate env_all_rejected [] question_1) = Inr (Some result_manual) \<and>
   Status result_manual = ''Manual Review Required'' \<and>
   20 < Score result_manual \<and>
   length (candidates (snd (remediate env_all_rejected [] question_1))) = 6 \<and>
   list_all (rejects env_all_rejected (Original_Question result_manual))
     (candidates (snd (remediate env_all_rejected [] question_1))) \<and>
   Final_Version result_manual = Original_Question result_manual"
proof -
  have run: "fst (remediate env_all_rejected [] question_1) = Inr (Some result_manual)"
    by (simp add: run_simps env_all_rejected_def question_1_def result_manual_def)
  then have "remediate env_all_rejected [] question_1 =
      (Inr (Some result_manual), snd (remediate env_all_rejected [] question_1))"
    by (metis prod.collapse)
  from manual_review_iff[OF this] run show ?thesis
    by (simp add: result_manual_def list_all_iff)
qed

text \<open>
  C3, as the code has it. On two strings the gate returns \<^verbatim>\<open>True\<close> if and only if the
  stripped, lower-cased candidate differs from the stripped, lower-cased original, the
  bi-encoder similarity is at least 0.8 and the cross-encoder score is at least 0.75.
  The events it appends show the order and the short cut: none when the texts are the
  same, the similarity alone when it is below 0.8, the similarity and then the relevance
  otherwise. On a text and itself it returns \<^verbatim>\<open>False\<close> and calls no model. The
  normalisation is \<^verbatim>\<open>str.lower\<close>, which is not case folding: two texts that fold to the
  same text and lower-case to different ones pass the first check. The code compares
  with the binary64 literals \<^verbatim>\<open>0.8\<close> and \<^verbatim>\<open>0.75\<close>; the second is exact, and the first
  decides as the rational 4/5 does on every binary64 value, which is what the similarity
  is assumed to be.
\<close>

theorem gate_accepts_iff:
  assumes "is_binary64 (cos_sim env original candidate)"
  shows "fst (validate env h (JStr original) candidate) =
           Inr (lower (strip candidate) \<noteq> lower (strip original) \<and>
                8 / 10 \<le> cos_sim env original candidate \<and>
                75 / 100 \<le> cross_predict env original candidate) \<and>
         snd (validate env h (JStr original) candidate) =
           h @ (if lower (strip candidate) = lower (strip original) then []
                else Similarity original candidate (cos_sim env original candidate) #
                     (if cos_sim env original candidate < 8 / 10 then []
                      else [Relevance original candidate (cross_predict env original candidate)])) \<and>
         validate env h (JStr x) x = (Inr False, h)"
proof -
  have bi: "(cos_sim env original candidate < b64 (4 / 5)) = (cos_sim env original candidate < 4 / 5)"
    using binary64_threshold[OF assms] by (simp add: not_le [symmetric])
  have cross: "b64 (3 / 4) = 3 / 4"
    by (simp add: b64_values)
  have same: "validate env h (JStr x) x = (Inr False, h)"
    by (simp add: validate_def)
  show ?thesis
    unfolding same
    by (auto simp add: validate_def Let_def bi cross not_less)
qed

theorem gate_accepts_iff_witness:
  "is_binary64 (cos_sim env_similar ''Which is not unlike the other?'' ''Which is like the other?'') \<and>
   validate env_similar [] (JStr ''Which is not unlike the other?'') ''Which is like the other?'' =
     (Inr True,
      [Similarity ''Which is not unlike the other?'' ''Which is like the other?'' (7 / 8),
       Relevance ''Which is not unlike the other?'' ''Which is like the other?'' (7 / 8)]) \<and>
   is_binary64 (cos_sim env_similar ''  Which One?'' ''which one?  '') \<and>
   validate env_similar [] (JStr ''  Which One?'') ''which one?  '' = (Inr False, []) \<and>
   is_binary64 (cos_sim env_all_rejected ''Which One?'' ''Which one is it?'') \<and>
   validate env_all_rejected [] (JStr ''Which One?'') ''Which one is it?'' =
     (Inr False, [Similarity ''Which One?'' ''Which one is it?'' (1 / 2)])"
proof -
  have "b64 (7 / 8) = 7 / 8" "b64 (1 / 2) = 1 / 2" by code_simp+
  then have b: "\<And>a c. is_binary64 (cos_sim env_similar a c)"
    "\<And>a c. is_binary64 (cos_sim env_all_rejected a c)"
    by (simp_all add: is_binary64_def env_similar_def env_all_rejected_def scripted_env_def)
  have l: "lower (strip ''Which is like the other?'') \<noteq> lower (strip ''Which is not unlike the other?'')"
    "lower (strip ''which one?  '') = lower (strip ''  Which One?'')"
    "lower (strip ''Which one is it?'') \<noteq> lower (strip ''Which One?'')"
    by code_simp+
  from gate_accepts_iff[where env = env_similar and original = "''Which is not unlike the other?''"
      and candidate = "''Which is like the other?''" and h = "[]" and x = "[]", OF b(1)]
    gate_accepts_iff[where env = env_similar and original = "''  Which One?''"
      and candidate = "''which one?  ''" and h = "[]" and x = "[]", OF b(1)]
    gate_accepts_iff[where env = env_all_rejected and original = "''Which One?''"
      and candidate = "''Which one is it?''" and h = "[]" and x = "[]", OF b(2)] b l
  show ?thesis
    by (simp add: prod_eq_iff env_similar_def env_all_rejected_def scripted_env_def)
qed

text \<open>
  C3 as stated, with the two texts case-folded, fails on \<^verbatim>\<open>STRASSE\<close> against the same
  word written with the sharp s: both fold to \<^verbatim>\<open>strasse\<close>, and the gate, which
  lower-cases them to different texts, returns \<^verbatim>\<open>True\<close> when both scores clear their
  thresholds.
\<close>

theorem case_folding_counterexample:
  "casefold (strip ''STRASSE'') = casefold (strip strasse_sharp) \<and>
   validate env_similar [] (JStr strasse_sharp) ''STRASSE'' =
     (Inr True, [Similarity strasse_sharp ''STRASSE'' (7 / 8),
                 Relevance strasse_sharp ''STRASSE'' (7 / 8)])"
proof -
  have f: "casefold (strip ''STRASSE'') = casefold (strip strasse_sharp)"
    by code_simp
  have l: "lower (strip strasse_sharp) \<noteq> lower (strip ''STRASSE'')"
    by code_simp
  have "validate env_similar [] (JStr strasse_sharp) ''STRASSE'' =
     (Inr True, [Similarity strasse_sharp ''STRASSE'' (7 / 8),
                 Relevance strasse_sharp ''STRASSE'' (7 / 8)])"
    using l by (simp add: validate_def env_similar_def scripted_env_def b64_values Let_def)
  with f show ?thesis by simp
qed

text \<open>
  C4. The rephraser makes its request at the temperature \<^verbatim>\<open>0.2 + (attempt * 0.1)\<close>,
  evaluated in binary64 arithmetic: for the attempts the loop makes (0 to 5) the value is
  within \<open>1 / 2 ^ 53\<close> of the exact \<open>0.2 + attempt * 0.1\<close> and strictly below the value of the
  next attempt. For one question, the temperatures of the requests the loop body issues
  are those of the attempts 0, 1, ... in order, a strictly increasing sequence.
\<close>

theorem temperature_escalates:
  assumes "remediate env h q = (res, h')"
  shows "temperatures (drop (length h) h') =
           map dynamic_temp [0..<length (candidates (drop (length h) h'))] \<and>
         sorted_wrt (<) (temperatures (drop (length h) h')) \<and>
         temperatures (drop (length h) (snd (rephrase env h question score justification attempt))) =
           [dynamic_temp attempt] \<and>
         dynamic_temp attempt = b64 (b64 (2 / 10) + b64 (b64 (of_nat attempt) * b64 (1 / 10))) \<and>
         (attempt < MAX_ATTEMPTS \<longrightarrow>
            \<bar>dynamic_temp attempt - (2 / 10 + of_nat attempt * (1 / 10))\<bar> \<le> 1 / 2 ^ 53) \<and>
         (Suc attempt < MAX_ATTEMPTS \<longrightarrow> dynamic_temp attempt < dynamic_temp (Suc attempt))"
proof -
  from remediate_trace[OF assms] obtain new where new: "h' = h @ new"
    "length (candidates new) \<le> MAX_ATTEMPTS"
    "temperatures new = map dynamic_temp [0..<length (candidates new)]"
    by blast
  have 1: "temperatures (drop (length h) h') =
           map dynamic_temp [0..<length (candidates (drop (length h) h'))]"
    using new(1,3) by simp
  have 2: "sorted_wrt (<) (temperatures (drop (length h) h'))"
    using new dynamic_temp_sorted by simp
  have 3: "temperatures (drop (length h) (snd (rephrase env h question score justification attempt))) =
           [dynamic_temp attempt]"
    by (simp add: rephrase_appends temperatures_def requests_def)
  have 4: "dynamic_temp attempt = b64 (b64 (2 / 10) + b64 (b64 (of_nat attempt) * b64 (1 / 10)))"
    by (simp add: dynamic_temp_def float_add_def float_mul_def float_of_int_def)
  from 1 2 3 4 show ?thesis
    using dynamic_temp_close dynamic_temp_increasing by blast
qed

theorem temperature_escalates_witness:
  "temperatures (snd (remediate env_last_accepted [] question_1)) =
     [3602879701896397 / 18014398509481984, 1351079888211149 / 4503599627370496,
      3602879701896397 / 9007199254740992, 1 / 2, 1351079888211149 / 2251799813685248,
      3152519739159347 / 4503599627370496] \<and>
   sorted_wrt (<) (temperatures (snd (remediate env_last_accepted [] question_1))) \<and>
   \<bar>dynamic_temp 4 - 6 / 10\<bar> \<le> 1 / 2 ^ 53 \<and>
   dynamic_temp 4 < dynamic_temp 5"
proof -
  have c: "length (candidates (snd (remediate env_last_accepted [] question_1))) = 6"
    by (simp add: run_simps env_last_accepted_def question_1_def candidates_def requests_def)
  have m: "(4::nat) < MAX_ATTEMPTS" "Suc 4 < MAX_ATTEMPTS" "Suc 4 = 5"
    by (simp_all add: MAX_ATTEMPTS_def)
  have "remediate env_last_accepted [] question_1 =
      (fst (remediate env_last_accepted [] question_1), snd (remediate env_last_accepted [] question_1))"
    by simp
  from temperature_escalates[OF this, of _ _ _ 4] c m show ?thesis
    by (simp add: upt_6 dynamic_temp_values)
qed

text \<open>
  C5, as the code has it. The score of an assessment is a non-negative integer: it is 0
  with the justification \<^verbatim>\<open>Could not parse score.\<close> when the response cannot be
  parsed, and otherwise the number that the digits after \<^verbatim>\<open>Score:\<close> write in base ten.
  The scorer does not bound it from above: it is at most 100 only when that number is.
\<close>

theorem score_nonnegative:
  "0 \<le> fst (fst (score_question env h question)) \<and>
   (fst (score_question env h question) = (0, ''Could not parse score.'') \<or>
    (\<exists>ds. search_score (completion env h SCORE_MODEL (score_prompt (fmt env question)) (b64 (2 / 10)))
            = Some ds \<and>
          ds \<noteq> [] \<and> list_all isdigit ds \<and>
          fst (fst (score_question env h question)) = decimal ds))"
proof (cases "parse_assessment (max_str_digits env)
    (completion env h SCORE_MODEL (score_prompt (fmt env question)) (b64 (2 / 10)))")
  case None
  then show ?thesis
    by (simp add: score_question_def chat_create_def Let_def)
next
  case (Some a)
  obtain n j where a: "a = (n, j)" by (cases a)
  from parse_assessment_Some[OF Some[unfolded a]] obtain ds where
    ds: "search_score (completion env h SCORE_MODEL (score_prompt (fmt env question)) (b64 (2 / 10))) = Some ds"
      "ds \<noteq> []" "list_all isdigit ds" "n = decimal ds"
    by blast
  have "fst (fst (score_question env h question)) = n"
    using Some a by (simp add: score_question_def chat_create_def Let_def)
  with ds decimal_nonneg[OF ds(3)] show ?thesis by auto
qed

theorem score_nonnegative_witness:
  "fst (fst (score_question env_all_rejected [] (JStr ''Which is not unlike the other?''))) = 90 \<and>
   search_score (''1. Score: 90'' @ [newline] @ ''2. Justification: double negation'') = Some ''90'' \<and>
   decimal ''90'' = 90"
proof -
  have "fst (fst (score_question env_all_rejected [] (JStr ''Which is not unlike the other?''))) = 90"
    using score_nonnegative[of env_all_rejected "[]" "JStr ''Which is not unlike the other?''"]
    by (simp add: run_simps env_all_rejected_def)
  then show ?thesis
    by (simp add: run_simps)
qed

text \<open>
  C5 as stated, an integer in the range from 0 to 100 for every response, fails on the
  response \<^verbatim>\<open>1. Score: 150\<close>: the assessment carries the score 150.
\<close>

theorem score_above_100_counterexample:
  "fst (fst (score_question env_over_100 [] (JStr ''Which is not unlike the other?''))) = 150 \<and>
   \<not> (0 \<le> fst (fst (score_question env_over_100 [] (JStr ''Which is not unlike the other?''))) \<and>
      fst (fst (score_question env_over_100 [] (JStr ''Which is not unlike the other?''))) \<le> 100)"
  by (simp add: run_simps env_over_100_def)

text \<open>
  C6, as the code has it. Given the empty text, the extractor returns no question and
  makes no request. Given any other text, one of white space only included, it makes
  one request and returns what the loader makes of the answer. The run strips the text
  of the document before the extractor sees it, so a document whose text cannot be read,
  is empty or is white space only yields the empty result and no request at all.
\<close>

theorem empty_text_no_request:
  "get_questions env h [] = ([], h) \<and>
   (text \<noteq> [] \<longrightarrow>
      snd (get_questions env h text) =
        h @ [Generate Extractor EXTRACT_MODEL (extract_prompt text) 0
               (completion env h EXTRACT_MODEL (extract_prompt text) 0)]) \<and>
   (pdf_text env file_bytes = None \<or>
    (\<exists>raw. pdf_text env file_bytes = Some raw \<and> list_all isspace raw) \<longrightarrow>
      run env h file_bytes = (Inr [], h))"
proof -
  have "get_questions env h [] = ([], h)"
    by (simp add: get_questions_def)
  moreover have "pdf_text env file_bytes = None \<or>
    (\<exists>raw. pdf_text env file_bytes = Some raw \<and> list_all isspace raw) \<longrightarrow>
      run env h file_bytes = (Inr [], h)"
    by (auto simp: run_def extract_text_def strip_all_space)
  ultimately show ?thesis
    using get_questions_request by blast
qed

theorem empty_text_no_request_witness:
  "get_questions env_extract [] [] = ([], []) \<and>
   requests Extractor (snd (get_questions env_extract [] ''2 + 2?'')) =
     [Generate Extractor EXTRACT_MODEL (extract_prompt ''2 + 2?'') 0 reply_one_question] \<and>
   pdf_text env_extract [32, 10, 9] = Some [CHR 0x20, CHR 0x0A, CHR 0x09] \<and>
   list_all isspace [CHR 0x20, CHR 0x0A, CHR 0x09] \<and>
   run env_extract [] [32, 10, 9] = (Inr [], [])"
proof -
  have p: "pdf_text env_extract [32, 10, 9] = Some [CHR 0x20, CHR 0x0A, CHR 0x09]"
    by code_simp
  have w: "list_all isspace [CHR 0x20, CHR 0x0A, CHR 0x09]"
    by (simp add: isspace_def)
  have n: "''2 + 2?'' \<noteq> []" by simp
  have c: "completion env_extract [] EXTRACT_MODEL (extract_prompt ''2 + 2?'') 0 = reply_one_question"
    by (simp add: env_extract_def scripted_env_def EXTRACT_MODEL_def SCORE_MODEL_def extract_prompt_def)
  from empty_text_no_request[of env_extract "[]" "''2 + 2?''" "[32, 10, 9]"] p w n c
  show ?thesis
    by (simp add: requests_def)
qed

text \<open>
  C6 as stated fails on the text of one space: the extractor makes its request and
  returns the question of the answer.
\<close>

theorem whitespace_text_counterexample:
  "list_all isspace '' '' \<and>
   fst (get_questions env_extract [] '' '') =
     [JObj [(''id'', JInt 1), (''question'', JStr ''What is 2 + 2?'')]] \<and>
   snd (get_questions env_extract [] '' '') =
     [Generate Extractor EXTRACT_MODEL (extract_prompt '' '') 0 reply_one_question]"
  by (simp add: get_questions_def chat_create_def env_extract_def scripted_env_def
      EXTRACT_MODEL_def SCORE_MODEL_def extract_prompt_def safe_json_load_def reply_one_question_def
      strip_def lstrip_def rstrip_def isspace_def newline_def fence_def backtick_def
      through_last_def questions_of_def Let_def)

text \<open>
  C7, as the code has it. What the extractor returns is decided by the shape of the
  parsed value alone. An array is returned as it is: its elements are taken as the
  question records and are not checked. An object with a list under \<^verbatim>\<open>questions\<close>
  gives that list; failing that, one with a list under \<^verbatim>\<open>exam_questions\<close> gives that
  list; failing both, an object whose values are all strings gives one record per item,
  the key as \<^verbatim>\<open>id\<close> and the value as \<^verbatim>\<open>question\<close>. Every other object and every value
  that is neither an array nor an object give the empty list. The extractor is a total
  function of the response: no parsed value makes it fail.
\<close>

theorem tolerant_shapes:
  "questions_of (JArr xs) = xs \<and>
   (has_list kvs ''questions'' \<longrightarrow>
      map_of kvs ''questions'' = Some (JArr (questions_of (JObj kvs)))) \<and>
   (\<not> has_list kvs ''questions'' \<and> has_list kvs ''exam_questions'' \<longrightarrow>
      map_of kvs ''exam_questions'' = Some (JArr (questions_of (JObj kvs)))) \<and>
   (\<not> has_list kvs ''questions'' \<and> \<not> has_list kvs ''exam_questions'' \<and>
    list_all is_str (map snd kvs) \<longrightarrow>
      questions_of (JObj kvs) = map (\<lambda>(k, v). JObj [(''id'', JStr k), (''question'', v)]) kvs) \<and>
   (\<not> has_list kvs ''questions'' \<and> \<not> has_list kvs ''exam_questions'' \<and>
    \<not> list_all is_str (map snd kvs) \<longrightarrow>
      questions_of (JObj kvs) = []) \<and>
   (raw \<in> {JNull, JBool b, JInt n, JFloat x, JStr s} \<longrightarrow> questions_of raw = []) \<and>
   fst (get_questions env h text) =
     (if text = [] then []
      else questions_of (safe_json_load env (completion env h EXTRACT_MODEL (extract_prompt text) 0)))"
proof -
  have 1: "questions_of (JArr xs) = xs"
    by (simp add: questions_of_def)
  have 2: "has_list kvs ''questions'' \<longrightarrow>
      map_of kvs ''questions'' = Some (JArr (questions_of (JObj kvs)))"
    by (auto simp: questions_of_def has_list_def split: option.splits json.splits)
  have 3: "\<not> has_list kvs ''questions'' \<and> has_list kvs ''exam_questions'' \<longrightarrow>
      map_of kvs ''exam_questions'' = Some (JArr (questions_of (JObj kvs)))"
    by (auto simp: questions_of_def has_list_def split: option.splits json.splits)
  have 4: "\<not> has_list kvs ''questions'' \<and> \<not> has_list kvs ''exam_questions'' \<and>
    list_all is_str (map snd kvs) \<longrightarrow>
      questions_of (JObj kvs) = map (\<lambda>(k, v). JObj [(''id'', JStr k), (''question'', v)]) kvs"
    by (simp add: questions_of_def first_list_two del: first_list.simps)
  have 5: "\<not> has_list kvs ''questions'' \<and> \<not> has_list kvs ''exam_questions'' \<and>
    \<not> list_all is_str (map snd kvs) \<longrightarrow> questions_of (JObj kvs) = []"
    by (simp add: questions_of_def first_list_two del: first_list.simps)
  have 6: "raw \<in> {JNull, JBool b, JInt n, JFloat x, JStr s} \<longrightarrow> questions_of raw = []"
    by (auto simp: questions_of_def)
  have 7: "fst (get_questions env h text) =
     (if text = [] then []
      else questions_of (safe_json_load env (completion env h EXTRACT_MODEL (extract_prompt text) 0)))"
    by (simp add: get_questions_def chat_create_def Let_def questions_of_def)
  from 1 2 3 4 5 6 7 show ?thesis by blast
qed

theorem tolerant_shapes_witness:
  "\<not> has_list [(''exam_questions'', JArr [question_1])] ''questions'' \<and>
   has_list [(''exam_questions'', JArr [question_1])] ''exam_questions'' \<and>
   questions_of (JObj [(''exam_questions'', JArr [question_1])]) = [question_1] \<and>
   list_all is_str (map snd [(''1'', JStr ''What?''), (''2'', JStr ''Why?'')]) \<and>
   questions_of (JObj [(''1'', JStr ''What?''), (''2'', JStr ''Why?'')]) =
     [JObj [(''id'', JStr ''1''), (''question'', JStr ''What?'')],
      JObj [(''id'', JStr ''2''), (''question'', JStr ''Why?'')]] \<and>
   \<not> list_all is_str (map snd [(''count'', JInt 2)]) \<and>
   questions_of (JObj [(''count'', JInt 2)]) = [] \<and>
   questions_of (JStr ''no questions'') = [] \<and>
   fst (get_questions env_fenced [] ''2 + 2?'') =
     [JObj [(''id'', JInt 1), (''question'', JStr ''What is 2 + 2?'')]]"
proof -
  have a: "\<not> has_list [(''exam_questions'', JArr [question_1])] ''questions''"
    "has_list [(''exam_questions'', JArr [question_1])] ''exam_questions''"
    by (simp_all add: has_list_def)
  have b: "\<not> has_list [(''1'', JStr ''What?''), (''2'', JStr ''Why?'')] ''questions''"
    "\<not> has_list [(''1'', JStr ''What?''), (''2'', JStr ''Why?'')] ''exam_questions''"
    "list_all is_str (map snd [(''1'', JStr ''What?''), (''2'', JStr ''Why?'')])"
    by (simp_all add: has_list_def)
  have c: "\<not> has_list [(''count'', JInt 2)] ''questions''"
    "\<not> has_list [(''count'', JInt 2)] ''exam_questions''"
    "\<not> list_all is_str (map snd [(''count'', JInt 2)])"
    by (simp_all add: has_list_def)
  note t = tolerant_shapes[where b = True and n = 0 and x = 0 and s = "''no questions''"
      and raw = "JStr ''no questions''"]
  from t[where kvs = "[(''exam_questions'', JArr [question_1])]"] a
  have 1: "questions_of (JObj [(''exam_questions'', JArr [question_1])]) = [question_1]"
    by simp
  from t[where kvs = "[(''1'', JStr ''What?''), (''2'', JStr ''Why?'')]"] b
  have 2: "questions_of (JObj [(''1'', JStr ''What?''), (''2'', JStr ''Why?'')]) =
     [JObj [(''id'', JStr ''1''), (''question'', JStr ''What?'')],
      JObj [(''id'', JStr ''2''), (''question'', JStr ''Why?'')]]"
    by simp
  from t[where kvs = "[(''count'', JInt 2)]"] c
  have 3: "questions_of (JObj [(''count'', JInt 2)]) = []"
    by simp
  from t have 4: "questions_of (JStr ''no questions'') = []"
    by simp
  have r: "completion env_fenced [] EXTRACT_MODEL (extract_prompt ''2 + 2?'') 0 = reply_fenced"
    by (simp add: env_fenced_def scripted_env_def EXTRACT_MODEL_def SCORE_MODEL_def
        extract_prompt_def)
  have l: "safe_json_load env_fenced reply_fenced =
      JArr [JObj [(''id'', JInt 1), (''question'', JStr ''What is 2 + 2?'')]]"
    by (simp add: safe_json_load_def env_fenced_def scripted_env_def reply_fenced_def
        reply_one_question_def strip_def lstrip_def rstrip_def isspace_def newline_def fence_def
        backtick_def through_last_def Let_def)
  from t[of "[JObj [(''id'', JInt 1), (''question'', JStr ''What is 2 + 2?'')]]" _
      env_fenced "[]" "''2 + 2?''"] r l
  have 5: "fst (get_questions env_fenced [] ''2 + 2?'') =
     [JObj [(''id'', JInt 1), (''question'', JStr ''What is 2 + 2?'')]]"
    by simp
  from a b(3) c(3) 1 2 3 4 5 show ?thesis by simp
qed

text \<open>
  C7 as stated, where the only arrays accepted are arrays of question records and every
  other value gives the empty sequence, fails on the array of the numbers 1 and 2: its
  elements are no question records, and the extractor returns them.
\<close>

theorem array_elements_counterexample:
  "\<not> question_record (JInt 1) \<and> \<not> question_record (JInt 2) \<and>
   questions_of (JArr [JInt 1, JInt 2]) = [JInt 1, JInt 2] \<and>
   fst (get_questions env_numbers [] ''Q'') = [JInt 1, JInt 2]"
  by (simp add: question_record_def questions_of_def get_questions_def chat_create_def
      safe_json_load_def env_numbers_def scripted_env_def EXTRACT_MODEL_def SCORE_MODEL_def
      extract_prompt_def strip_def lstrip_def rstrip_def isspace_def newline_def fence_def
      backtick_def through_last_def Let_def)

text \<open>
  C8. When the response of the scorer has no \<^verbatim>\<open>Score:\<close> followed by a digit, or no
  \<^verbatim>\<open>Justification:\<close> followed by a character on its line, the assessment is exactly the
  score 0 with the justification \<^verbatim>\<open>Could not parse score.\<close>, and the loop body keeps
  the question: the record has the status \<^verbatim>\<open>Original Kept\<close>, the original as its final
  version, and no request of the rephraser is made.
\<close>

theorem degraded_assessment_kept:
  assumes "original = dict_get kvs ''question'' (JStr [])"
    and "truthy original"
    and "txt = completion env h SCORE_MODEL (score_prompt (fmt env original)) (b64 (2 / 10))"
    and "\<not> field_match ''Score:'' isdigit txt \<or>
         \<not> field_match ''Justification:'' (\<lambda>c. c \<noteq> newline) txt"
  shows "fst (score_question env h original) = (0, ''Could not parse score.'') \<and>
         fst (remediate env h (JObj kvs)) =
           Inr (Some \<lparr>ID = dict_get kvs ''id'' (JStr ''?''),
                       Original_Question = original,
                       Score = 0, Justification = ''Could not parse score.'',
                       Final_Version = original,
                       Status = ''Original Kept''\<rparr>) \<and>
         requests Rephraser (snd (remediate env h (JObj kvs))) = requests Rephraser h"
proof -
  from assms(4) have "search_score txt = None \<or> search_justification txt = None"
    by (simp add: search_score_def search_justification_def re_search_None)
  then have "parse_assessment (max_str_digits env) txt = None"
    by (auto simp: parse_assessment_def split: option.splits)
  then have f: "fst (score_question env h original) = (0, ''Could not parse score.'')"
    by (simp add: score_question_def chat_create_def Let_def assms(3))
  then have sq: "score_question env h original =
      ((0, ''Could not parse score.''), snd (score_question env h original))"
    by (metis prod.collapse)
  have "remediate env h (JObj kvs) =
           (Inr (Some \<lparr>ID = dict_get kvs ''id'' (JStr ''?''),
                       Original_Question = original,
                       Score = 0, Justification = ''Could not parse score.'',
                       Final_Version = original,
                       Status = ''Original Kept''\<rparr>), snd (score_question env h original))"
    by (rule remediate_clear[OF assms(1,2) sq]) simp
  moreover have "requests Rephraser (snd (score_question env h original)) = requests Rephraser h"
    by (simp add: score_question_appends requests_def)
  ultimately show ?thesis using f by simp
qed

theorem degraded_assessment_kept_witness:
  "\<not> field_match ''Score:'' isdigit ''Score: high. It reads badly.'' \<and>
   fst (score_question env_unparsable [] (JStr ''Which is not unlike the other?'')) =
     (0, ''Could not parse score.'') \<and>
   fst (remediate env_unparsable [] question_1) =
     Inr (Some \<lparr>ID = JInt 1, Original_Question = JStr ''Which is not unlike the other?'',
                 Score = 0, Justification = ''Could not parse score.'',
                 Final_Version = JStr ''Which is not unlike the other?'',
                 Status = ''Original Kept''\<rparr>) \<and>
   requests Rephraser (snd (remediate env_unparsable [] question_1)) = []"
proof -
  let ?kvs = "[(''id'', JInt 1), (''question'', JStr ''Which is not unlike the other?'')]"
  let ?o = "JStr ''Which is not unlike the other?''"
  have o: "?o = dict_get ?kvs ''question'' (JStr [])"
    by (simp add: dict_get_def)
  have t: "truthy ?o" by simp
  have c: "''Score: high. It reads badly.'' =
      completion env_unparsable [] SCORE_MODEL (score_prompt (fmt env_unparsable ?o)) (b64 (2 / 10))"
    by (simp add: env_unparsable_def scripted_env_def)
  have s: "search_score ''Score: high. It reads badly.'' = None"
    by (simp add: run_simps)
  have "(re_search ''Score:'' isdigit ''Score: high. It reads badly.'' = None) =
      (\<not> field_match ''Score:'' isdigit ''Score: high. It reads badly.'')"
    by (rule re_search_None) simp
  with s have n: "\<not> field_match ''Score:'' isdigit ''Score: high. It reads badly.''"
    unfolding search_score_def by blast
  then have "\<not> field_match ''Score:'' isdigit ''Score: high. It reads badly.'' \<or>
      \<not> field_match ''Justification:'' (\<lambda>c. c \<noteq> newline) ''Score: high. It reads badly.''"
    by simp
  from degraded_assessment_kept[OF o t c this] n show ?thesis
    by (simp add: question_1_def dict_get_def requests_def)
qed

text \<open>
  C9, as the code has it. When every element of the list is a question record (a dict
  whose text is a string or is missing), the loop ends without error, skips exactly the
  records whose text is missing or empty, and appends exactly one record for every other
  one, in the order of the list: the identifiers and the original questions of the
  results are those of the records that have a text. When some element of the list is
  not a dict, the loop fails with \<^verbatim>\<open>AttributeError\<close> and returns no result at all.
\<close>

theorem results_in_order:
  "(list_all question_record questions \<longrightarrow>
      (\<exists>rs h'. run_loop env h questions [] = (Inr rs, h') \<and>
         map (\<lambda>r. (ID r, Original_Question r)) rs =
           map (\<lambda>q. (record_id q, question_text q)) (filter has_text questions))) \<and>
   (\<not> list_all is_dict questions \<longrightarrow>
      fst (run_loop env h questions []) = Inl AttributeError)"
  using run_loop_records[of questions env h "[]"] run_loop_not_dict[of questions env h "[]"]
  by simp

theorem results_in_order_witness:
  "list_all question_record [question_1, question_blank, question_no_id] \<and>
   (\<exists>rs h'. run_loop env_clear [] [question_1, question_blank, question_no_id] [] = (Inr rs, h') \<and>
      map (\<lambda>r. (ID r, Original_Question r)) rs =
        [(JInt 1, JStr ''Which is not unlike the other?''),
         (JStr ''?'', JStr ''Which is not unlike the other?'')]) \<and>
   \<not> list_all is_dict [question_1, JStr ''What is 2 + 2?''] \<and>
   fst (run_loop env_clear [] [question_1, JStr ''What is 2 + 2?''] []) = Inl AttributeError"
proof -
  have a: "list_all question_record [question_1, question_blank, question_no_id]"
    by (simp add: question_record_def question_1_def question_blank_def question_no_id_def)
  have f: "map (\<lambda>q. (record_id q, question_text q))
             (filter has_text [question_1, question_blank, question_no_id]) =
        [(JInt 1, JStr ''Which is not unlike the other?''),
         (JStr ''?'', JStr ''Which is not unlike the other?'')]"
    by (simp add: has_text_def question_text_def record_id_def dict_get_def
        question_1_def question_blank_def question_no_id_def)
  have b: "\<not> list_all is_dict [question_1, JStr ''What is 2 + 2?'']"
    by simp
  from results_in_order[of "[question_1, question_blank, question_no_id]" env_clear "[]"]
    results_in_order[of "[question_1, JStr ''What is 2 + 2?'']" env_clear "[]"] a b
  show ?thesis
    by (simp only: f simp_thms)
qed

text \<open>
  C9 as stated, for every list the extractor produces, fails on a response that is an
  array of one question record and one bare string: the extractor returns both
  elements, and the run fails on the second, so the first, which has a text, yields no
  result.
\<close>

theorem results_in_order_counterexample:
  "fst (get_questions env_mixed [] ''Q'') = [question_1, JStr ''What is 2 + 2?''] \<and>
   question_record question_1 \<and> has_text question_1 \<and>
   fst (run env_mixed [] [81]) = Inl AttributeError"
proof -
  have t: "extract_text env_mixed [81] = ''Q''"
    by code_simp
  have c: "completion env_mixed [] EXTRACT_MODEL (extract_prompt ''Q'') 0 = reply_mixed"
    by (simp add: env_mixed_def scripted_env_def EXTRACT_MODEL_def SCORE_MODEL_def extract_prompt_def)
  have l: "safe_json_load env_mixed reply_mixed = JArr [question_1, JStr ''What is 2 + 2?'']"
    by (simp add: safe_json_load_def env_mixed_def scripted_env_def reply_mixed_def
        strip_def lstrip_def rstrip_def isspace_def newline_def fence_def backtick_def
        through_last_def Let_def)
  have g: "get_questions env_mixed [] ''Q'' =
      ([question_1, JStr ''What is 2 + 2?''],
       [Generate Extractor EXTRACT_MODEL (extract_prompt ''Q'') 0 reply_mixed])"
    by (simp add: get_questions_def chat_create_def c l questions_of_def)
  have q: "question_record question_1" "has_text question_1"
    by (simp_all add: question_record_def has_text_def question_text_def dict_get_def question_1_def)
  have "\<not> list_all is_dict [question_1, JStr ''What is 2 + 2?'']"
    by simp
  then have "fst (run_loop env_mixed [Generate Extractor EXTRACT_MODEL (extract_prompt ''Q'') 0 reply_mixed]
      [question_1, JStr ''What is 2 + 2?''] []) = Inl AttributeError"
    by (rule run_loop_not_dict)
  then have "fst (run env_mixed [] [81]) = Inl AttributeError"
    by (simp add: run_def t g MAX_PDF_SIZE_def)
  with g q show ?thesis by simp
qed

text \<open>
  C10. The \<^verbatim>\<open>ID\<close> of an emitted record is the value of the question's \<^verbatim>\<open>id\<close> key, and
  the string \<^verbatim>\<open>?\<close> when the key is absent. The identifier has no other effect: the same
  question without its \<^verbatim>\<open>id\<close> key has the same outcome (the same error, the same skip or
  the same record but for the \<^verbatim>\<open>ID\<close>) and leaves the same history.
\<close>

theorem missing_id_default:
  assumes "remediate env h (JObj kvs) = (res, h')"
  shows "(\<forall>r. res = Inr (Some r) \<longrightarrow>
            ID r = (case map_of kvs ''id'' of Some v \<Rightarrow> v | None \<Rightarrow> JStr ''?'')) \<and>
         remediate env h (JObj (filter (\<lambda>kv. fst kv \<noteq> ''id'') kvs)) =
           (map_sum id (map_option (\<lambda>r. r\<lparr>ID := JStr ''?''\<rparr>)) res, h')"
  using assms remediate_ID[of env h kvs _ h'] remediate_without_id[of env h kvs]
  by (auto simp: dict_get_def)

theorem missing_id_default_witness:
  "fst (remediate env_clear [] question_1) =
     Inr (Some \<lparr>ID = JInt 1, Original_Question = JStr ''Which is not unlike the other?'',
                 Score = 10, Justification = ''plain wording'',
                 Final_Version = JStr ''Which is not unlike the other?'',
                 Status = ''Original Kept''\<rparr>) \<and>
   remediate env_clear [] question_no_id =
     (Inr (Some \<lparr>ID = JStr ''?'', Original_Question = JStr ''Which is not unlike the other?'',
                  Score = 10, Justification = ''plain wording'',
                  Final_Version = JStr ''Which is not unlike the other?'',
                  Status = ''Original Kept''\<rparr>),
      snd (remediate env_clear [] question_1))"
proof -
  let ?kvs = "[(''id'', JInt 1), (''question'', JStr ''Which is not unlike the other?'')]"
  let ?r = "\<lparr>ID = JInt 1, Original_Question = JStr ''Which is not unlike the other?'',
                 Score = 10, Justification = ''plain wording'',
                 Final_Version = JStr ''Which is not unlike the other?'',
                 Status = ''Original Kept''\<rparr>"
  have f: "fst (remediate env_clear [] (JObj ?kvs)) = Inr (Some ?r)"
    by (simp add: run_simps env_clear_def)
  then have "remediate env_clear [] (JObj ?kvs) =
      (Inr (Some ?r), snd (remediate env_clear [] (JObj ?kvs)))"
    by (metis prod.collapse)
  from missing_id_default[OF this] f show ?thesis
    by (simp add: question_no_id_def question_1_def)
qed

end
